theory Spec2Isabelle
  imports Main "HOL-Library.Sublist" "HOL-Library.AList" "HOL-Library.Char_ord" "HOL-Library.List_Lexorder"
    "HOL-Library.Log_Nat"
begin

section \<open>Client view model: messages of one chat\<close>

text \<open>
  The Chat page keeps the messages of the open chat as a list of \<open>ChatMessage\<close> objects.
  Times are JavaScript \<open>Date\<close> values, read through \<open>getTime()\<close>: milliseconds as an
  integer. A field the Firestore document does not carry is \<open>undefined\<close> in the source
  and \<open>None\<close> here. A string is a list of code units below 256.
\<close>

record FileAttachment =
  file_id :: string
  file_url :: string
  file_downloadUrl :: string
  file_name :: string
  file_type :: string
  file_size :: int

record ChatMessage =
  msg_id :: string
  msg_text :: "string option"
  senderId :: "string option"
  senderName :: "string option"
  timestamp :: "int option"
  files :: "FileAttachment list"
  isEdited :: bool
  isPinned :: bool

subsection \<open>Grouping of messages by sender, day and gap\<close>

text \<open>
  The loop variables of the grouping pass of the Chat component: the groups pushed so
  far, the group being filled, and the sender and day of the previous message. The
  sender starts as the empty string, which differs from an absent sender.
\<close>

record group_state =
  groupedMessages :: "ChatMessage list list"
  currentGroup :: "ChatMessage list"
  lastSenderId :: "string option"
  lastDate :: string

definition group_init :: group_state where
  "group_init = \<lparr>groupedMessages = [], currentGroup = [], lastSenderId = Some [], lastDate = []\<rparr>"

text \<open>
  \<open>format(message.timestamp, 'yyyy-MM-dd')\<close> is date-fns, a library outside the
  repository: the formatter is the parameter \<open>fmt\<close>. A message without a timestamp has
  the empty string as its day.
\<close>

definition messageDate :: "(int \<Rightarrow> string) \<Rightarrow> ChatMessage \<Rightarrow> string" where
  "messageDate fmt message = (case timestamp message of Some t \<Rightarrow> fmt t | None \<Rightarrow> [])"

text \<open>
  The third disjunct of the test: not the first message, both timestamps present, and
  more than five minutes after \<open>messages[index-1]\<close>.
\<close>

definition gap_exceeded :: "ChatMessage list \<Rightarrow> nat \<Rightarrow> ChatMessage \<Rightarrow> bool" where
  "gap_exceeded messages index message =
     (index > 0 \<and>
      (case timestamp message of
         None \<Rightarrow> False
       | Some t \<Rightarrow>
           (case timestamp (messages ! (index - 1)) of
              None \<Rightarrow> False
            | Some p \<Rightarrow> t - p > 5 * 60 * 1000)))"

definition starts_new_group ::
  "(int \<Rightarrow> string) \<Rightarrow> ChatMessage list \<Rightarrow> group_state \<Rightarrow> nat \<Rightarrow> ChatMessage \<Rightarrow> bool" where
  "starts_new_group fmt messages st index message =
     (senderId message \<noteq> lastSenderId st \<or>
      messageDate fmt message \<noteq> lastDate st \<or>
      gap_exceeded messages index message)"

text \<open>One call of the \<open>forEach\<close> callback, on \<open>(index, message)\<close>.\<close>

definition group_step ::
  "(int \<Rightarrow> string) \<Rightarrow> ChatMessage list \<Rightarrow> group_state \<Rightarrow> nat \<times> ChatMessage \<Rightarrow> group_state" where
  "group_step fmt messages st im =
     (let index = fst im; message = snd im;
          st1 = (if starts_new_group fmt messages st index message
                 then (if currentGroup st \<noteq> []
                       then st\<lparr>groupedMessages := groupedMessages st @ [currentGroup st],
                               currentGroup := []\<rparr>
                       else st)
                 else st)
      in st1\<lparr>currentGroup := currentGroup st1 @ [message],
             lastSenderId := senderId message,
             lastDate := messageDate fmt message\<rparr>)"

text \<open>The whole pass: the loop over the list, then the push of the last group.\<close>

definition groupMessages :: "(int \<Rightarrow> string) \<Rightarrow> ChatMessage list \<Rightarrow> ChatMessage list list" where
  "groupMessages fmt messages =
     (let st = foldl (group_step fmt messages) group_init (enumerate 0 messages)
      in if currentGroup st \<noteq> [] then groupedMessages st @ [currentGroup st]
         else groupedMessages st)"

text \<open>A message as the scenarios use it: a sender, a time, and every other field at its default.\<close>

definition plain_message :: "string \<Rightarrow> string \<Rightarrow> int \<Rightarrow> ChatMessage" where
  "plain_message i s t =
     \<lparr>msg_id = i, msg_text = Some [], senderId = Some s, senderName = Some s,
      timestamp = Some t, files = [], isEdited = False, isPinned = False\<rparr>"

text \<open>
  The four messages of the specification's scenario, on the day that starts at \<open>d\<close>:
  A at 10:00:00 and 10:00:30, B at 10:01:00, A at 10:10:00.
\<close>

definition scenario_messages :: "int \<Rightarrow> ChatMessage list" where
  "scenario_messages d =
     [plain_message ''m1'' ''A'' (d + 36000000), plain_message ''m2'' ''A'' (d + 36030000),
      plain_message ''m3'' ''B'' (d + 36060000), plain_message ''m4'' ''A'' (d + 36600000)]"

subsection \<open>Decoding a snapshot of message documents\<close>

text \<open>
  A timestamp field as a snapshot delivers it: absent or null (a server timestamp that
  is still pending), a Firestore \<open>Timestamp\<close>, or a present value of another kind.
  \<open>field?.toDate()\<close> is \<open>undefined\<close> for the first, the date for the second, and
  throws a \<open>TypeError\<close> for the third, which has no method \<open>toDate\<close>.
\<close>

datatype js_error = TypeError | FirestoreError

datatype timestamp_field = NoTimestamp | FirestoreTimestamp int | OtherValue

definition toDate :: "timestamp_field \<Rightarrow> js_error + int option" where
  "toDate field =
     (case field of
        NoTimestamp \<Rightarrow> Inr None
      | FirestoreTimestamp t \<Rightarrow> Inr (Some t)
      | OtherValue \<Rightarrow> Inl TypeError)"

text \<open>
  \<open>doc.data()\<close> of a message document. Firestore documents have no schema, so every
  field may be absent.
\<close>

record MessageData =
  data_text :: "string option"
  data_senderId :: "string option"
  data_senderName :: "string option"
  data_timestamp :: timestamp_field
  data_files :: "FileAttachment list option"
  data_isEdited :: "bool option"
  data_isPinned :: "bool option"

text \<open>
  The object pushed for one document \<open>(doc.id, doc.data())\<close>, or the exception that
  building it throws.
\<close>

definition decodeMessage :: "string \<times> MessageData \<Rightarrow> js_error + ChatMessage" where
  "decodeMessage d =
     (case toDate (data_timestamp (snd d)) of
        Inl e \<Rightarrow> Inl e
      | Inr date \<Rightarrow>
          Inr \<lparr>msg_id = fst d,
               msg_text = data_text (snd d),
               senderId = data_senderId (snd d),
               senderName = data_senderName (snd d),
               timestamp = date,
               files = (case data_files (snd d) of None \<Rightarrow> [] | Some fs \<Rightarrow> fs),
               isEdited = (case data_isEdited (snd d) of None \<Rightarrow> False | Some b \<Rightarrow> b),
               isPinned = (case data_isPinned (snd d) of None \<Rightarrow> False | Some b \<Rightarrow> b)\<rparr>)"

text \<open>
  The \<open>onSnapshot\<close> callback of the messages query: the list it gives to
  \<open>setMessages\<close>, or the exception that ends the loop before \<open>setMessages\<close> is
  reached. After an exception the page keeps the messages it had.
\<close>

definition onMessagesSnapshot :: "(string \<times> MessageData) list \<Rightarrow> js_error + ChatMessage list" where
  "onMessagesSnapshot docs =
     foldl (\<lambda>acc d.
        (case acc of
           Inl e \<Rightarrow> Inl e
         | Inr messagesList \<Rightarrow>
             (case decodeMessage d of
                Inl e \<Rightarrow> Inl e
              | Inr message \<Rightarrow> Inr (messagesList @ [message])))) (Inr []) docs"

definition messagesAfterSnapshot :: "(string \<times> MessageData) list \<Rightarrow> ChatMessage list \<Rightarrow> ChatMessage list" where
  "messagesAfterSnapshot docs messages =
     (case onMessagesSnapshot docs of Inl e \<Rightarrow> messages | Inr messagesList \<Rightarrow> messagesList)"

text \<open>
  The specification's notion of a malformed message record, in its own words: a
  required field, such as the sender id, is absent.
\<close>

definition spec_malformed :: "MessageData \<Rightarrow> bool" where
  "spec_malformed data = (data_senderId data = None)"

subsection \<open>Pinned messages\<close>

definition pinnedMessages :: "ChatMessage list \<Rightarrow> ChatMessage list" where
  "pinnedMessages messages = filter (\<lambda>message. isPinned message) messages"

text \<open>
  Orderings of a message list by time, over the messages that have a time: the
  specification's descending order, and the ascending order of the messages query.
\<close>

definition timestamps_descending :: "ChatMessage list \<Rightarrow> bool" where
  "timestamps_descending ms =
     sorted_wrt (\<lambda>a b. case (timestamp a, timestamp b) of (Some x, Some y) \<Rightarrow> y \<le> x | _ \<Rightarrow> True) ms"

definition timestamps_ascending :: "ChatMessage list \<Rightarrow> bool" where
  "timestamps_ascending ms =
     sorted_wrt (\<lambda>a b. case (timestamp a, timestamp b) of (Some x, Some y) \<Rightarrow> x \<le> y | _ \<Rightarrow> True) ms"

subsection \<open>Typing indicators\<close>

record TypingData =
  typing_userId :: "string option"
  typing_userName :: "string option"
  typing_timestamp :: timestamp_field

record TypingIndicator =
  ti_id :: string
  ti_userId :: "string option"
  ti_userName :: "string option"
  ti_timestamp :: int

text \<open>
  The query \<open>where('userId', '!=', currentUser.uid)\<close> over the typing documents of the
  chat. Firestore's \<open>!=\<close> matches a document only if the field exists and differs.
\<close>

definition typingQuery :: "string \<Rightarrow> (string \<times> TypingData) list \<Rightarrow> (string \<times> TypingData) list" where
  "typingQuery uid docs =
     filter (\<lambda>d. case typing_userId (snd d) of None \<Rightarrow> False | Some u \<Rightarrow> u \<noteq> uid) docs"

text \<open>
  The body of the \<open>onSnapshot\<close> callback: \<open>now\<close> is \<open>new Date().getTime()\<close>, read while
  the callback runs. The result is stored with \<open>setTypingUsers\<close>; an exception of
  \<open>toDate\<close> ends the callback before that.
\<close>

definition typingList :: "int \<Rightarrow> (string \<times> TypingData) list \<Rightarrow> js_error + TypingIndicator list" where
  "typingList now docs =
     foldl (\<lambda>acc d.
        (case acc of
           Inl e \<Rightarrow> Inl e
         | Inr l \<Rightarrow>
             (case toDate (typing_timestamp (snd d)) of
                Inl e \<Rightarrow> Inl e
              | Inr None \<Rightarrow> Inr l
              | Inr (Some t) \<Rightarrow>
                  if now - t < 10000
                  then Inr (l @ [\<lparr>ti_id = fst d, ti_userId = typing_userId (snd d),
                                   ti_userName = typing_userName (snd d), ti_timestamp = t\<rparr>])
                  else Inr l))) (Inr []) docs"

text \<open>
  What the page shows is the stored \<open>typingUsers\<close>; the render at a later time \<open>t\<close>
  reads the state and does not filter again.
\<close>

definition shownTyping :: "TypingIndicator list \<Rightarrow> int \<Rightarrow> TypingIndicator list" where
  "shownTyping typingUsers t = typingUsers"

subsection \<open>Pending attachments\<close>

record LocalFile =
  lf_name :: string
  lf_type :: string
  lf_size :: int

record FileUpload =
  up_file :: LocalFile
  up_name :: string
  up_type :: string
  up_size :: int
  up_progress :: int
  up_url :: string
  up_downloadUrl :: string
  up_id :: string

text \<open>What \<open>uploadFile\<close> resolves to, as far as the page reads it; it may also reject.\<close>

record UploadResult =
  res_id :: string
  res_url :: string
  res_downloadUrl :: string

datatype upload_outcome = Resolved UploadResult | Rejected

definition fileTypeOf :: "string \<Rightarrow> string" where
  "fileTypeOf mime =
     (if prefix ''image/'' mime then ''image''
      else if prefix ''video/'' mime then ''video''
      else if prefix ''audio/'' mime then ''audio''
      else ''document'')"

definition newUpload :: "LocalFile \<Rightarrow> FileUpload" where
  "newUpload file =
     \<lparr>up_file = file, up_name = lf_name file, up_type = fileTypeOf (lf_type file),
      up_size = lf_size file, up_progress = 0, up_url = [], up_downloadUrl = [], up_id = []\<rparr>"

text \<open>
  The three marks the page draws beside a pending attachment: a spinner for a progress
  from 0 below 100, a check for 100, a cross for -1.
\<close>

datatype upload_state = InProgress | Succeeded | Failed

definition upload_state_of :: "FileUpload \<Rightarrow> upload_state" where
  "upload_state_of u =
     (if up_progress u = 100 then Succeeded
      else if up_progress u = - 1 then Failed
      else InProgress)"

text \<open>
  One call of \<open>handleFileChange\<close> keeps its own array \<open>updatedUploads\<close>, which the
  completions of its uploads update and copy into the state. \<open>b_base\<close> is
  \<open>fileUploads.length\<close> at the time of the call; \<open>b_pending\<close> are the indices into
  \<open>newUploads\<close> whose promise has not settled.
\<close>

record upload_batch =
  b_updatedUploads :: "FileUpload list"
  b_base :: nat
  b_pending :: "nat list"

record User =
  user_uid :: string
  user_displayName :: "string option"

text \<open>
  The state of the Chat page that the composer touches. \<open>alerts\<close> records the calls of
  \<open>alert\<close>, \<open>in_flight\<close> the calls of \<open>handleFileChange\<close> whose uploads may still settle.
  The flag \<open>uploadLoading\<close>, which disables the inputs while uploads run, is left out:
  the events below may come in any order.
\<close>

record chat_page =
  messageText :: string
  fileUploads :: "FileUpload list"
  isTyping :: bool
  typingUsers :: "TypingIndicator list"
  alerts :: "string list"
  in_flight :: "upload_batch list"

definition page_init :: chat_page where
  "page_init = \<lparr>messageText = [], fileUploads = [], isTyping = False, typingUsers = [],
                 alerts = [], in_flight = []\<rparr>"

definition handleFileChange :: "LocalFile list \<Rightarrow> chat_page \<Rightarrow> chat_page" where
  "handleFileChange fs st =
     (if fs = [] then st
      else let newUploads = map newUpload fs;
               updatedUploads = fileUploads st @ newUploads
           in st\<lparr>fileUploads := fileUploads st @ newUploads,
                 in_flight := in_flight st @
                   [\<lparr>b_updatedUploads = updatedUploads, b_base = length (fileUploads st),
                     b_pending = [0..<length newUploads]\<rparr>]\<rparr>)"

text \<open>
  The upload of \<open>newUploads[index]\<close> of batch \<open>b\<close> settles. A promise settles once, so
  an index that is not pending settles nothing.
\<close>

definition settled_upload :: "FileUpload \<Rightarrow> upload_outcome \<Rightarrow> FileUpload" where
  "settled_upload u outcome =
     (case outcome of
        Resolved result \<Rightarrow>
          u\<lparr>up_url := res_url result, up_downloadUrl := res_downloadUrl result,
            up_id := res_id result, up_progress := 100\<rparr>
      | Rejected \<Rightarrow> u\<lparr>up_progress := - 1\<rparr>)"

definition uploadSettled :: "nat \<Rightarrow> nat \<Rightarrow> upload_outcome \<Rightarrow> chat_page \<Rightarrow> chat_page" where
  "uploadSettled b index outcome st =
     (if b < length (in_flight st) \<and> index \<in> set (b_pending (in_flight st ! b))
      then let batch = in_flight st ! b;
               totalIndex = b_base batch + index;
               updatedUploads = (b_updatedUploads batch)
                 [totalIndex := settled_upload (b_updatedUploads batch ! totalIndex) outcome]
           in st\<lparr>fileUploads := updatedUploads,
                 in_flight := (in_flight st)
                   [b := batch\<lparr>b_updatedUploads := updatedUploads,
                              b_pending := removeAll index (b_pending batch)\<rparr>]\<rparr>
      else st)"

definition removeFileUpload :: "nat \<Rightarrow> chat_page \<Rightarrow> chat_page" where
  "removeFileUpload index st =
     st\<lparr>fileUploads := take index (fileUploads st) @ drop (Suc index) (fileUploads st)\<rparr>"

subsection \<open>Sending the composed message\<close>

text \<open>
  \<open>String.prototype.trim\<close>: the white space and line terminators of JavaScript among
  the code units below 256, which are tab to carriage return, space and no-break space.
\<close>

definition is_space :: "char \<Rightarrow> bool" where
  "is_space c = (c \<in> {CHR 0x09, CHR 0x0A, CHR 0x0B, CHR 0x0C, CHR 0x0D, CHR 0x20, CHR 0xA0})"

definition trim :: "string \<Rightarrow> string" where
  "trim s = rev (dropWhile is_space (rev (dropWhile is_space s)))"

definition attachment_of :: "FileUpload \<Rightarrow> FileAttachment" where
  "attachment_of upload =
     \<lparr>file_id = up_id upload, file_url = up_url upload,
      file_downloadUrl = up_downloadUrl upload, file_name = up_name upload,
      file_type = up_type upload, file_size = up_size upload\<rparr>"

text \<open>The attachments of the outgoing message: uploads with a truthy url and id.\<close>

definition outgoing_files :: "FileUpload list \<Rightarrow> FileAttachment list" where
  "outgoing_files uploads =
     map attachment_of (filter (\<lambda>upload. up_url upload \<noteq> [] \<and> up_id upload \<noteq> []) uploads)"

record OutgoingMessage =
  om_text :: string
  om_senderId :: string
  om_senderName :: "string option"
  om_files :: "FileAttachment list"
  om_isEdited :: bool
  om_isPinned :: bool

function show_nat :: "nat \<Rightarrow> string" where
  "show_nat n = (if n < 10 then [char_of (48 + n)] else show_nat (n div 10) @ [char_of (48 + n mod 10)])"
  by pat_completeness auto
termination
  by (relation "measure id") auto

definition lastMessage_of :: "string \<Rightarrow> FileAttachment list \<Rightarrow> string" where
  "lastMessage_of composed fs =
     (if trim composed \<noteq> [] then trim composed
      else show_nat (length fs) @ '' file'' @ (if length fs > 1 then ''s'' else []))"

text \<open>
  The result of one call of \<open>handleSendMessage\<close>: the page afterwards, the message given
  to \<open>addDoc\<close> and the \<open>lastMessage\<close> given to \<open>updateDoc\<close>, for each call that was made.
  \<open>add_ok\<close> and \<open>upd_ok\<close> say whether the two writes succeed; a write that fails throws.
  The typing document is cleared by \<open>updateTypingStatus\<close>, which catches its own errors.
\<close>

record send_result =
  sr_page :: chat_page
  sr_addDoc :: "OutgoingMessage option"
  sr_updateDoc :: "string option"

definition send_failed_alert :: string where
  "send_failed_alert = ''Failed to send message. Please try again.''"

definition handleSendMessage ::
  "string option \<Rightarrow> User option \<Rightarrow> bool \<Rightarrow> bool \<Rightarrow> chat_page \<Rightarrow> send_result" where
  "handleSendMessage chatId currentUser add_ok upd_ok st =
     (case currentUser of
        None \<Rightarrow> \<lparr>sr_page = st, sr_addDoc = None, sr_updateDoc = None\<rparr>
      | Some user \<Rightarrow>
          if (trim (messageText st) = [] \<and> fileUploads st = []) \<or> chatId = None \<or> chatId = Some []
          then \<lparr>sr_page = st, sr_addDoc = None, sr_updateDoc = None\<rparr>
          else
            let st1 = st\<lparr>isTyping := False\<rparr>;
                fs = outgoing_files (fileUploads st);
                message = \<lparr>om_text = trim (messageText st), om_senderId = user_uid user,
                           om_senderName = user_displayName user, om_files = fs,
                           om_isEdited = False, om_isPinned = False\<rparr>
            in if \<not> add_ok
               then \<lparr>sr_page = st1\<lparr>alerts := alerts st1 @ [send_failed_alert]\<rparr>,
                     sr_addDoc = Some message, sr_updateDoc = None\<rparr>
               else if \<not> upd_ok
               then \<lparr>sr_page = st1\<lparr>alerts := alerts st1 @ [send_failed_alert]\<rparr>,
                     sr_addDoc = Some message,
                     sr_updateDoc = Some (lastMessage_of (messageText st) fs)\<rparr>
               else \<lparr>sr_page = st1\<lparr>messageText := [], fileUploads := []\<rparr>,
                     sr_addDoc = Some message,
                     sr_updateDoc = Some (lastMessage_of (messageText st) fs)\<rparr>)"

text \<open>
  \<open>handleMessageChange\<close>: the text is stored and the typing flag follows it. The
  handler also starts a timer of five seconds; when it fires the flag is cleared if it
  was set when the handler ran (\<open>captured\<close>).
\<close>

definition handleMessageChange :: "string \<Rightarrow> chat_page \<Rightarrow> chat_page" where
  "handleMessageChange v st =
     st\<lparr>messageText := v,
        isTyping := (if \<not> isTyping st \<and> trim v \<noteq> [] then True
                     else if isTyping st \<and> trim v = [] then False
                     else isTyping st)\<rparr>"

definition typingTimeout :: "bool \<Rightarrow> chat_page \<Rightarrow> chat_page" where
  "typingTimeout captured st = (if captured then st\<lparr>isTyping := False\<rparr> else st)"

text \<open>The events of the page that touch the composer, and a run of them.\<close>

datatype page_event =
    FileChange "LocalFile list"
  | UploadSettled nat nat upload_outcome
  | RemoveFileUpload nat
  | MessageChange string
  | TypingTimeout bool
  | TypingSnapshot int "(string \<times> TypingData) list"
  | SendMessage bool bool

fun page_step :: "string option \<Rightarrow> User option \<Rightarrow> chat_page \<Rightarrow> page_event \<Rightarrow> chat_page" where
  "page_step chatId currentUser st (FileChange fs) = handleFileChange fs st"
| "page_step chatId currentUser st (UploadSettled b index outcome) = uploadSettled b index outcome st"
| "page_step chatId currentUser st (RemoveFileUpload index) = removeFileUpload index st"
| "page_step chatId currentUser st (MessageChange v) = handleMessageChange v st"
| "page_step chatId currentUser st (TypingTimeout captured) = typingTimeout captured st"
| "page_step chatId currentUser st (TypingSnapshot now docs) =
     (case currentUser of
        None \<Rightarrow> st
      | Some user \<Rightarrow>
          (case typingList now (typingQuery (user_uid user) docs) of
             Inl e \<Rightarrow> st
           | Inr l \<Rightarrow> st\<lparr>typingUsers := l\<rparr>))"
| "page_step chatId currentUser st (SendMessage add_ok upd_ok) =
     sr_page (handleSendMessage chatId currentUser add_ok upd_ok st)"

definition page_run :: "string option \<Rightarrow> User option \<Rightarrow> page_event list \<Rightarrow> chat_page" where
  "page_run chatId currentUser evs = foldl (page_step chatId currentUser) page_init evs"

section \<open>The Firestore collections and the REST handlers\<close>

subsection \<open>Numbers and field values\<close>

text \<open>
  A JavaScript number is a double. The counters of this program are whole numbers, so
  a number is kept here as the integer it equals, and \<open>x + 1\<close> is the exact sum rounded
  to the nearest double, ties to the even significand: exact up to \<open>2^53\<close>, and above
  that a multiple of the spacing of the doubles at that size.
\<close>

definition round_double :: "int \<Rightarrow> int" where
  "round_double n =
     (if \<bar>n\<bar> \<le> 2 ^ 53 then n
      else let u = 2 ^ nat (bitlen \<bar>n\<bar> - 53);
               q = \<bar>n\<bar> div u;
               r = \<bar>n\<bar> mod u;
               m = (if 2 * r < u \<or> (2 * r = u \<and> even q) then q else q + 1)
           in sgn n * (m * u))"

definition js_plus_one :: "int \<Rightarrow> int" where
  "js_plus_one c = round_double (c + 1)"

text \<open>
  The values that the handlers below store under \<open>unreadCounts\<close>, starting from no
  counters: numbers, the strings that \<open>+\<close> makes of a value that is not a number, and
  the nested maps that a field path with several segments creates.
\<close>

datatype fvalue = Num int | Str string | Map "(string \<times> fvalue) list"

text \<open>
  A chat document. The collection has no schema: the controllers write \<open>name\<close>,
  \<open>lastMessageAt\<close>, \<open>lastMessageId\<close>, \<open>unreadCounts\<close> and \<open>folder\<close>, the routers and the
  client write \<open>title\<close>, \<open>lastMessageTime\<close>, \<open>lastMessage\<close> and \<open>folderName\<close>. A field a
  writer leaves out is \<open>None\<close>.
\<close>

record ChatDoc =
  chat_name :: "string option"
  chat_title :: "string option"
  isGroup :: bool
  members :: "string list"
  createdBy :: string
  createdAt :: int
  lastMessageAt :: "int option"
  lastMessageTime :: "int option"
  lastMessageId :: "string option"
  lastMessage :: "string option"
  unreadCounts :: "(string \<times> fvalue) list option"
  folder :: "string option"
  folderName :: "string option"

text \<open>A message of the subcollection \<open>chats/{chatId}/messages\<close>, as the controller writes it.\<close>

record MessageDocument =
  md_text :: string
  md_files :: "FileAttachment list"
  md_senderId :: string
  md_senderName :: string
  md_timestamp :: int
  md_isEdited :: bool
  md_isPinned :: bool
  md_readBy :: "string list"

text \<open>
  A message of the top-level collection \<open>messages\<close>, as the message router writes it,
  with the fields the modelled routes read or write.
\<close>

record RoutedMessage =
  rm_chatId :: string
  rm_senderId :: string
  rm_timestamp :: int
  rm_readBy :: "string list option"
  rm_content :: "string option"
  rm_fileUrl :: "string option"
  rm_fileType :: "string option"

text \<open>
  The database: each collection as the list of its documents by id, in the order a
  query without \<open>orderBy\<close> returns them. \<open>users\<close> holds each profile's \<open>displayName\<close>.
  \<open>writes\<close> counts the write calls (\<open>add\<close>, \<open>update\<close>, \<open>set\<close>, \<open>delete\<close>) made so far.
\<close>

record firestore =
  chats :: "(string \<times> ChatDoc) list"
  chat_messages :: "((string \<times> string) \<times> MessageDocument) list"
  chat_typing :: "((string \<times> string) \<times> TypingData) list"
  users :: "(string \<times> string option) list"
  messages_coll :: "(string \<times> RoutedMessage) list"
  writes :: nat

definition empty_firestore :: firestore where
  "empty_firestore = \<lparr>chats = [], chat_messages = [], chat_typing = [], users = [],
                       messages_coll = [], writes = 0\<rparr>"

subsection \<open>Unread counters: \<open>sendMessage\<close> and \<open>getChatById\<close>\<close>

text \<open>
  The properties that a plain object inherits from \<open>Object.prototype\<close>, as far as
  \<open>+ 1\<close> tells them apart: a function becomes its source text, the prototype object
  itself is an object.
\<close>

definition object_prototype :: "string \<Rightarrow> fvalue option" where
  "object_prototype k =
     (if k = ''__proto__'' then Some (Map [])
      else if k = ''constructor'' then Some (Str ''function Object() { [native code] }'')
      else if k \<in> set [''__defineGetter__'', ''__defineSetter__'', ''hasOwnProperty'',
                        ''__lookupGetter__'', ''__lookupSetter__'', ''isPrototypeOf'',
                        ''propertyIsEnumerable'', ''toString'', ''valueOf'', ''toLocaleString'']
      then Some (Str (''function '' @ k @ ''() { [native code] }''))
      else None)"


definition unread_read :: "ChatDoc \<Rightarrow> string \<Rightarrow> fvalue option" where
  "unread_read chatData memberId =
     (case unreadCounts chatData of
        None \<Rightarrow> None
      | Some counts \<Rightarrow>
          if memberId = ''__proto__'' then object_prototype memberId
          else (case map_of counts memberId of
                  Some v \<Rightarrow> Some v
                | None \<Rightarrow> object_prototype memberId))"

text \<open>\<open>(v || 0) + 1\<close>, for \<open>v\<close> as read\<close>

definition or_zero_plus_one :: "fvalue option \<Rightarrow> fvalue" where
  "or_zero_plus_one v =
     (case v of
        None \<Rightarrow> Num 1
      | Some (Num c) \<Rightarrow> Num (js_plus_one c)
      | Some (Str s) \<Rightarrow> if s = [] then Num 1 else Str (s @ ''1'')
      | Some (Map m) \<Rightarrow> Str ''[object Object]1'')"

text \<open>
  The entries \<open>unreadCounts.${memberId}\<close> of \<open>updateData\<close>, set by the loop over the
  members; each is kept as the pair of the member id and the value.
\<close>

definition unread_updates :: "string \<Rightarrow> ChatDoc \<Rightarrow> (string \<times> fvalue) list" where
  "unread_updates uid chatData =
     foldl (\<lambda>updateData memberId.
              if memberId \<noteq> uid
              then AList.update memberId (or_zero_plus_one (unread_read chatData memberId)) updateData
              else updateData) [] (members chatData)"

text \<open>
  \<open>update\<close> of the Firestore Admin SDK, on the entries of \<open>unreadCounts\<close>. A key of
  the update is a field path: it is refused when it contains one of \<open>* ~ / [ ]\<close> or
  has an empty segment, and split at its dots otherwise. An update in which one path
  is the beginning of another is refused. A path of several segments sets a field of
  a nested map, which replaces a value that is not a map. Limits of the service on
  sizes are left out.
\<close>

fun split_on :: "char \<Rightarrow> string \<Rightarrow> string list" where
  "split_on c [] = [[]]"
| "split_on c (x # xs) =
     (if x = c then [] # split_on c xs
      else (case split_on c xs of
              [] \<Rightarrow> [[x]]
            | w # ws \<Rightarrow> (x # w) # ws))"

definition field_path :: "string \<Rightarrow> string" where
  "field_path memberId = ''unreadCounts.'' @ memberId"

definition field_path_ok :: "string \<Rightarrow> bool" where
  "field_path_ok path =
     (list_all (\<lambda>c. c \<notin> set ''*~/[]'') path \<and> [] \<notin> set (split_on CHR ''.'' path))"

definition conflicting :: "string list list \<Rightarrow> bool" where
  "conflicting paths = list_ex (\<lambda>p. list_ex (\<lambda>q. p \<noteq> q \<and> prefix p q) paths) paths"

fun update_path :: "string list \<Rightarrow> fvalue \<Rightarrow> (string \<times> fvalue) list \<Rightarrow> (string \<times> fvalue) list" where
  "update_path [] v m = m"
| "update_path [k] v m = AList.update k v m"
| "update_path (k # k' # ks) v m =
     AList.update k
       (Map (update_path (k' # ks) v (case map_of m k of Some (Map sub) \<Rightarrow> sub | _ \<Rightarrow> []))) m"

definition update_unreadCounts ::
  "(string \<times> fvalue) list \<Rightarrow> (string \<times> fvalue) list option \<Rightarrow> js_error + (string \<times> fvalue) list option" where
  "update_unreadCounts updateData counts =
     (if \<not> list_all (\<lambda>kv. field_path_ok (field_path (fst kv))) updateData \<or>
         conflicting (map (\<lambda>kv. split_on CHR ''.'' (field_path (fst kv))) updateData)
      then Inl FirestoreError
      else if updateData = [] then Inr counts
      else Inr (Some (foldl (\<lambda>m kv. update_path (tl (split_on CHR ''.'' (field_path (fst kv)))) (snd kv) m)
                        (case counts of None \<Rightarrow> [] | Some m \<Rightarrow> m) updateData)))"

text \<open>\<open>(!text || text.trim() === '') && (!files || files.length === 0)\<close>\<close>

definition no_content :: "string option \<Rightarrow> FileAttachment list option \<Rightarrow> bool" where
  "no_content txt fs =
     ((case txt of None \<Rightarrow> True | Some t \<Rightarrow> t = [] \<or> trim t = []) \<and>
      (case fs of None \<Rightarrow> True | Some l \<Rightarrow> l = []))"

text \<open>
  \<open>sendMessage\<close> of the message controller, in its two parts. The handler first reads
  the chat document and the sender's profile. It then adds the message, updates the
  chat document with values computed from the copy it read, and deletes the sender's
  typing document. The handler awaits between the parts, so the database that
  \<open>sendMessage_write\<close> acts on may have changed since the read. \<open>now\<close> is \<open>new Date()\<close>,
  \<open>newId\<close> the id Firestore gives the new message. An update that Firestore refuses
  throws, after the message is added; so does the update of a document that is gone.
  After its writes the handler builds the response with
  \<open>messageData.timestamp.toDate()\<close> on a \<open>Date\<close>, which has no such method: the
  exception is caught and the status is 500, with the writes done.
\<close>

definition sendMessage_write ::
  "string \<Rightarrow> string \<Rightarrow> string option \<Rightarrow> FileAttachment list option \<Rightarrow> int \<Rightarrow> string
     \<Rightarrow> ChatDoc \<Rightarrow> string \<Rightarrow> firestore \<Rightarrow> nat \<times> firestore" where
  "sendMessage_write chatId uid txt fs now newId chatData sender db =
     (let messageData =
            \<lparr>md_text = (case txt of None \<Rightarrow> [] | Some t \<Rightarrow> t),
             md_files = (case fs of None \<Rightarrow> [] | Some l \<Rightarrow> l),
             md_senderId = uid, md_senderName = sender,
             md_timestamp = now, md_isEdited = False, md_isPinned = False,
             md_readBy = [uid]\<rparr>;
          db1 = db\<lparr>chat_messages := chat_messages db @ [((chatId, newId), messageData)],
                   writes := writes db + 1\<rparr>
      in (case map_of (chats db1) chatId of
            None \<Rightarrow> (500, db1)
          | Some stored \<Rightarrow>
              (case update_unreadCounts (unread_updates uid chatData) (unreadCounts stored) of
                 Inl e \<Rightarrow> (500, db1)
               | Inr counts \<Rightarrow>
                   (500,
                    db1\<lparr>chats := AList.update chatId
                                    (stored\<lparr>lastMessageAt := Some now, lastMessageId := Some newId,
                                            unreadCounts := counts\<rparr>)
                                    (chats db1),
                        chat_typing := AList.delete (chatId, uid) (chat_typing db1),
                        writes := writes db1 + 2\<rparr>))))"

text \<open>The whole handler, with no other write between its read and its writes.\<close>

definition sendMessage ::
  "string \<Rightarrow> string \<Rightarrow> string option \<Rightarrow> FileAttachment list option \<Rightarrow> int \<Rightarrow> string
     \<Rightarrow> firestore \<Rightarrow> nat \<times> firestore" where
  "sendMessage chatId uid txt fs now newId db =
     (if no_content txt fs then (400, db)
      else
        (case map_of (chats db) chatId of
           None \<Rightarrow> (404, db)
         | Some chatData \<Rightarrow>
             if uid \<notin> set (members chatData) then (403, db)
             else
               sendMessage_write chatId uid txt fs now newId chatData
                 (case map_of (users db) uid of
                    Some (Some n) \<Rightarrow> if n = [] then ''Unknown User'' else n
                  | _ \<Rightarrow> ''Unknown User'')
                 db))"


text \<open>
  The server runs its handlers concurrently: while one awaits the database, another
  runs. A send is therefore two steps, its reads and, later, its writes with the values
  it computed from what it read; between the two any other step may take place.
  \<open>sendMessage_read\<close> is the first part of \<open>sendMessage\<close>: its guards, the chat document
  and the sender's name. The update of a view writes nothing it has read, and no step
  here deletes a chat or changes its members, so a view is one step, taken at the time
  of its update.
\<close>

definition sendMessage_read ::
  "string \<Rightarrow> string \<Rightarrow> string option \<Rightarrow> FileAttachment list option \<Rightarrow> firestore
     \<Rightarrow> nat + ChatDoc \<times> string" where
  "sendMessage_read chatId uid txt fs db =
     (if no_content txt fs then Inl 400
      else
        (case map_of (chats db) chatId of
           None \<Rightarrow> Inl 404
         | Some chatData \<Rightarrow>
             if uid \<notin> set (members chatData) then Inl 403
             else
               Inr (chatData,
                    case map_of (users db) uid of
                      Some (Some n) \<Rightarrow> if n = [] then ''Unknown User'' else n
                    | _ \<Rightarrow> ''Unknown User'')))"






definition counts_nonneg :: "(string \<times> fvalue) list option \<Rightarrow> bool" where
  "counts_nonneg counts =
     (case counts of
        None \<Rightarrow> True
      | Some m \<Rightarrow> list_all (\<lambda>kv. case snd kv of Num c \<Rightarrow> 0 \<le> c | _ \<Rightarrow> True) m)"

definition counters_nonneg :: "firestore \<Rightarrow> bool" where
  "counters_nonneg db = list_all (\<lambda>d. counts_nonneg (unreadCounts (snd d))) (chats db)"




subsection \<open>Creating a chat: the controller and the client dialog\<close>

text \<open>\<open>[...new Set(xs)]\<close>: the elements of \<open>xs\<close> in the order of their first occurrence.\<close>

definition js_set_list :: "'a list \<Rightarrow> 'a list" where
  "js_set_list xs = foldl (\<lambda>acc x. if x \<in> set acc then acc else acc @ [x]) [] xs"

record create_response =
  cr_status :: nat
  cr_chatId :: "string option"
  cr_exists :: "bool option"

definition new_chat ::
  "string \<Rightarrow> string option \<Rightarrow> bool \<Rightarrow> string list \<Rightarrow> string option \<Rightarrow> int \<Rightarrow> ChatDoc" where
  "new_chat uid nm grp allMembers fld now =
     \<lparr>chat_name = Some (if grp then (case nm of None \<Rightarrow> [] | Some n \<Rightarrow> n) else []),
      chat_title = None, isGroup = grp, members = allMembers, createdBy = uid,
      createdAt = now, lastMessageAt = Some now, lastMessageTime = None,
      lastMessageId = None, lastMessage = None, unreadCounts = Some [],
      folder = Some (case fld of None \<Rightarrow> ''default'' | Some f \<Rightarrow> if f = [] then ''default'' else f),
      folderName = None\<rparr>"

text \<open>
  \<open>createChat\<close> of the chat controller. \<open>allMembers.sort()\<close> sorts the array in place, so
  a direct chat is stored with its two members in sorted order. The query compares the
  stored array with the sorted one, element by element.
\<close>

definition createChat ::
  "string \<Rightarrow> string option \<Rightarrow> string list option \<Rightarrow> bool \<Rightarrow> string option \<Rightarrow> int \<Rightarrow> string
     \<Rightarrow> firestore \<Rightarrow> create_response \<times> firestore" where
  "createChat uid nm mems grp fld now newId db =
     (case mems of
        None \<Rightarrow> (\<lparr>cr_status = 400, cr_chatId = None, cr_exists = None\<rparr>, db)
      | Some ms \<Rightarrow>
          if grp \<and> (nm = None \<or> nm = Some [])
          then (\<lparr>cr_status = 400, cr_chatId = None, cr_exists = None\<rparr>, db)
          else
            let allMembers = js_set_list (ms @ [uid]);
                direct = (\<not> grp \<and> length allMembers = 2);
                stored = (if direct then sort allMembers else allMembers);
                existing = (if direct
                            then find (\<lambda>d. members (snd d) = sort allMembers \<and> isGroup (snd d) = False)
                                   (chats db)
                            else None)
            in (case existing of
                  Some existingChat \<Rightarrow>
                    (\<lparr>cr_status = 200, cr_chatId = Some (fst existingChat), cr_exists = Some True\<rparr>, db)
                | None \<Rightarrow>
                    (\<lparr>cr_status = 201, cr_chatId = Some newId, cr_exists = Some False\<rparr>,
                     db\<lparr>chats := chats db @ [(newId, new_chat uid nm grp stored fld now)],
                        writes := writes db + 1\<rparr>)))"

text \<open>
  \<open>handleCreateChat\<close> of the dialog, for a signed-in user: \<open>selectedUsers\<close> as pairs of
  id and display name. The result names the chat the dialog navigates to, or is
  \<open>None\<close> after an alert.
\<close>

definition handleCreateChat ::
  "User \<Rightarrow> (string \<times> string) list \<Rightarrow> bool \<Rightarrow> string \<Rightarrow> string \<Rightarrow> int \<Rightarrow> string
     \<Rightarrow> firestore \<Rightarrow> string option \<times> firestore" where
  "handleCreateChat currentUser selectedUsers grp ttl finalFolderName now newId db =
     (if selectedUsers = [] then (None, db)
      else if grp \<and> ttl = [] then (None, db)
      else
        let mems = user_uid currentUser # map fst selectedUsers;
            existingChat =
              (if \<not> grp \<and> length selectedUsers = 1
               then find (\<lambda>d. fst (hd selectedUsers) \<in> set (members (snd d)) \<and>
                               length (members (snd d)) = 2 \<and> \<not> isGroup (snd d))
                      (filter (\<lambda>d. user_uid currentUser \<in> set (members (snd d))) (chats db))
               else None)
        in (case existingChat of
              Some d \<Rightarrow> (Some (fst d), db)
            | None \<Rightarrow>
                (Some newId,
                 db\<lparr>chats := chats db @
                      [(newId,
                        \<lparr>chat_name = None,
                         chat_title = Some (if grp then ttl else snd (hd selectedUsers)),
                         isGroup = grp, members = mems, createdBy = user_uid currentUser,
                         createdAt = now, lastMessageAt = None, lastMessageTime = Some now,
                         lastMessageId = None, lastMessage = None, unreadCounts = None,
                         folder = None,
                         folderName = (if grp \<and> finalFolderName \<noteq> [] then Some finalFolderName
                                       else None)\<rparr>)],
                    writes := writes db + 1\<rparr>)))"

subsection \<open>Read receipts: the message router\<close>

text \<open>\<open>POST /api/messages\<close>: the new message is stored with its sender as the only reader.\<close>

definition postMessage ::
  "string option \<Rightarrow> string option \<Rightarrow> string option \<Rightarrow> string option \<Rightarrow> string option
     \<Rightarrow> int \<Rightarrow> string \<Rightarrow> firestore \<Rightarrow> nat \<times> firestore" where
  "postMessage userId chatId content fileUrl fileType now newId db =
     (case userId of
        None \<Rightarrow> (401, db)
      | Some u \<Rightarrow>
          if chatId = None \<or> chatId = Some [] then (400, db)
          else if (content = None \<or> content = Some []) \<and> (fileUrl = None \<or> fileUrl = Some [])
          then (400, db)
          else
            (case map_of (chats db) (the chatId) of
               None \<Rightarrow> (404, db)
             | Some chatData \<Rightarrow>
                 if u \<notin> set (members chatData) then (403, db)
                 else
                   let truthy = (\<lambda>v. if v = Some [] then None else v);
                       messageData =
                         \<lparr>rm_chatId = the chatId, rm_senderId = u, rm_timestamp = now,
                          rm_readBy = Some [u], rm_content = truthy content,
                          rm_fileUrl = truthy fileUrl, rm_fileType = truthy fileType\<rparr>;
                       preview =
                         (case truthy content of
                            Some c \<Rightarrow> c
                          | None \<Rightarrow> ''Shared a '' @ (case truthy fileType of Some t \<Rightarrow> t | None \<Rightarrow> ''file''))
                   in (201,
                       db\<lparr>messages_coll := messages_coll db @ [(newId, messageData)],
                          chats := AList.update (the chatId)
                                     (chatData\<lparr>lastMessageTime := Some now, lastMessage := Some preview\<rparr>)
                                     (chats db),
                          writes := writes db + 2\<rparr>)))"

text \<open>\<open>PUT /api/messages/:id/read\<close>\<close>

definition markRead :: "string option \<Rightarrow> string \<Rightarrow> firestore \<Rightarrow> nat \<times> firestore" where
  "markRead userId messageId db =
     (case userId of
        None \<Rightarrow> (401, db)
      | Some u \<Rightarrow>
          (case map_of (messages_coll db) messageId of
             None \<Rightarrow> (404, db)
           | Some messageData \<Rightarrow>
               (case map_of (chats db) (rm_chatId messageData) of
                  None \<Rightarrow> (404, db)
                | Some chatData \<Rightarrow>
                    if u \<notin> set (members chatData) then (403, db)
                    else
                      let readBy = (case rm_readBy messageData of None \<Rightarrow> [] | Some r \<Rightarrow> r)
                      in if u \<notin> set readBy
                         then (200,
                               db\<lparr>messages_coll :=
                                     AList.update messageId
                                       (messageData\<lparr>rm_readBy := Some (readBy @ [u])\<rparr>)
                                       (messages_coll db),
                                  writes := writes db + 1\<rparr>)
                         else (200, db))))"

text \<open>\<open>messageData.readBy || []\<close> of a stored message, or of no message.\<close>

definition readBy_of :: "firestore \<Rightarrow> string \<Rightarrow> string list" where
  "readBy_of db messageId =
     (case map_of (messages_coll db) messageId of
        None \<Rightarrow> []
      | Some messageData \<Rightarrow> (case rm_readBy messageData of None \<Rightarrow> [] | Some r \<Rightarrow> r))"

text \<open>Every stored list of readers is free of duplicates.\<close>

definition readBy_distinct :: "firestore \<Rightarrow> bool" where
  "readBy_distinct db =
     list_all (\<lambda>d. distinct (case rm_readBy (snd d) of None \<Rightarrow> [] | Some r \<Rightarrow> r)) (messages_coll db)"

subsection \<open>Well-formed pending attachments\<close>

text \<open>
  What every run of the page keeps true: an upload that carries both a url and an id
  has progress 100; in each array held by a call of \<open>handleFileChange\<close>, the entries
  whose upload is still pending carry neither.
\<close>

definition upload_ok :: "FileUpload \<Rightarrow> bool" where
  "upload_ok u = (up_url u \<noteq> [] \<and> up_id u \<noteq> [] \<longrightarrow> up_progress u = 100)"

definition batch_ok :: "upload_batch \<Rightarrow> bool" where
  "batch_ok b =
     (list_all upload_ok (b_updatedUploads b) \<and>
      list_all (\<lambda>i. b_base b + i < length (b_updatedUploads b) \<and>
                     up_url (b_updatedUploads b ! (b_base b + i)) = [] \<and>
                     up_id (b_updatedUploads b ! (b_base b + i)) = []) (b_pending b))"

definition page_ok :: "chat_page \<Rightarrow> bool" where
  "page_ok st = (list_all upload_ok (fileUploads st) \<and> list_all batch_ok (in_flight st))"

subsection \<open>Example data\<close>

text \<open>A pinned message, a message record without a sender id, and a typing document.\<close>

definition pinned_message :: "string \<Rightarrow> string \<Rightarrow> int \<Rightarrow> ChatMessage" where
  "pinned_message i s t = (plain_message i s t)\<lparr>isPinned := True\<rparr>"

definition record_without_sender :: MessageData where
  "record_without_sender =
     \<lparr>data_text = Some ''hello'', data_senderId = None, data_senderName = Some ''Ann'',
      data_timestamp = FirestoreTimestamp 1000, data_files = None, data_isEdited = None, data_isPinned = None\<rparr>"

definition typing_doc :: "string \<Rightarrow> int \<Rightarrow> string \<times> TypingData" where
  "typing_doc u t = (u, \<lparr>typing_userId = Some u, typing_userName = Some u, typing_timestamp = FirestoreTimestamp t\<rparr>)"

text \<open>
  A run of the page: a text is typed, two files are chosen, the first upload succeeds
  and the second fails. And a page with a text only.
\<close>

definition sample_file :: LocalFile where
  "sample_file = \<lparr>lf_name = ''cat.png'', lf_type = ''image/png'', lf_size = 2048\<rparr>"

definition sample_result :: UploadResult where
  "sample_result = \<lparr>res_id = ''f1'', res_url = ''https://files/f1/view'',
                     res_downloadUrl = ''https://files/f1/download''\<rparr>"

definition sample_events :: "page_event list" where
  "sample_events =
     [MessageChange ''look'',
      FileChange [sample_file, sample_file\<lparr>lf_name := ''dog.png''\<rparr>],
      UploadSettled 0 0 (Resolved sample_result),
      UploadSettled 0 1 Rejected]"

definition sample_user :: User where
  "sample_user = \<lparr>user_uid = ''A'', user_displayName = Some ''Ann''\<rparr>"

definition sample_sent :: OutgoingMessage where
  "sample_sent =
     \<lparr>om_text = ''look'', om_senderId = ''A'', om_senderName = Some ''Ann'',
      om_files = [\<lparr>file_id = ''f1'', file_url = ''https://files/f1/view'',
                   file_downloadUrl = ''https://files/f1/download'',
                   file_name = ''cat.png'', file_type = ''image'', file_size = 2048\<rparr>],
      om_isEdited = False, om_isPinned = False\<rparr>"

definition composed_page :: chat_page where
  "composed_page = page_init\<lparr>messageText := ''look''\<rparr>"

text \<open>
  A database with one direct chat of a and b, in which b has two unread messages; the
  same after a has posted a message through the message router; and the database after
  b has opened a chat with a in the client dialog.
\<close>

definition sample_chat :: ChatDoc where
  "sample_chat =
     \<lparr>chat_name = Some [], chat_title = None, isGroup = False, members = [''a'', ''b''],
      createdBy = ''a'', createdAt = 0, lastMessageAt = Some 0, lastMessageTime = None,
      lastMessageId = None, lastMessage = None, unreadCounts = Some [(''b'', Num 2)],
      folder = Some ''default'', folderName = None\<rparr>"

definition sample_db :: firestore where
  "sample_db = empty_firestore\<lparr>chats := [(''c1'', sample_chat)]\<rparr>"

definition posted_db :: firestore where
  "posted_db = snd (postMessage (Some ''a'') (Some ''c1'') (Some ''hi'') None None 10 ''m1'' sample_db)"

definition user_b :: User where
  "user_b = \<lparr>user_uid = ''b'', user_displayName = Some ''Bob''\<rparr>"

definition dialog_db :: firestore where
  "dialog_db = snd (handleCreateChat user_b [(''a'', ''Ann'')] False [] [] 100 ''c1'' empty_firestore)"




section \<open>Properties of the grouping pass\<close>

lemma group_step_concat:
  "concat (groupedMessages (group_step fmt ms st im)) @ currentGroup (group_step fmt ms st im)
     = concat (groupedMessages st) @ currentGroup st @ [snd im]"
  by (simp add: group_step_def Let_def)

lemma group_step_nonempty:
  "[] \<notin> set (groupedMessages st) \<Longrightarrow> [] \<notin> set (groupedMessages (group_step fmt ms st im))"
  by (simp add: group_step_def Let_def)

lemma group_loop_concat:
  "concat (groupedMessages (foldl (group_step fmt ms) st ims)) @ currentGroup (foldl (group_step fmt ms) st ims)
     = concat (groupedMessages st) @ currentGroup st @ map snd ims"
proof (induction ims arbitrary: st)
  case Nil
  show ?case by simp
next
  case (Cons im ims)
  show ?case by (simp add: Cons.IH group_step_concat)
qed

lemma group_loop_nonempty:
  "[] \<notin> set (groupedMessages st) \<Longrightarrow> [] \<notin> set (groupedMessages (foldl (group_step fmt ms) st ims))"
  by (induction ims arbitrary: st) (simp_all add: group_step_nonempty)

lemma concat_groupMessages: "concat (groupMessages fmt ms) = ms"
proof -
  let ?st = "foldl (group_step fmt ms) group_init (enumerate 0 ms)"
  have "concat (groupedMessages ?st) @ currentGroup ?st = ms"
    using group_loop_concat [of fmt ms group_init "enumerate 0 ms"]
    by (simp add: group_init_def)
  then show ?thesis
    by (auto simp: groupMessages_def Let_def)
qed

lemma groupMessages_nonempty: "[] \<notin> set (groupMessages fmt ms)"
proof -
  have "[] \<notin> set (groupedMessages (foldl (group_step fmt ms) group_init (enumerate 0 ms)))"
    by (rule group_loop_nonempty) (simp add: group_init_def)
  then show ?thesis
    by (simp add: groupMessages_def Let_def)
qed

lemma unique_group_of_distinct_concat:
  assumes d: "distinct (concat gs)" and x: "x \<in> set (concat gs)"
  shows "\<exists>!i. i < length gs \<and> x \<in> set (gs ! i)"
proof -
  from x obtain g where g: "g \<in> set gs" "x \<in> set g" by auto
  then obtain i where i: "i < length gs" "gs ! i = g"
    by (auto simp: in_set_conv_nth)
  show ?thesis
  proof (rule ex1I [of _ i])
    show "i < length gs \<and> x \<in> set (gs ! i)" using i g by simp
  next
    fix j assume j: "j < length gs \<and> x \<in> set (gs ! j)"
    show "j = i"
    proof (rule ccontr)
      assume ne: "j \<noteq> i"
      have "set (gs ! i) \<inter> set (gs ! j) = {}"
        using d i(1) j ne
      proof (induction gs arbitrary: i j)
        case Nil
        then show ?case by simp
      next
        case (Cons a gs)
        show ?case
        proof (cases i)
          case 0
          then obtain j' where "j = Suc j'" using Cons.prems(4) by (cases j) auto
          then show ?thesis using 0 Cons.prems by (auto simp: disjoint_iff)
        next
          case (Suc i')
          show ?thesis
          proof (cases j)
            case 0
            then show ?thesis using Suc Cons.prems by (auto simp: disjoint_iff)
          next
            case (Suc j')
            then show ?thesis using \<open>i = Suc i'\<close> Cons.prems Cons.IH [of i' j'] by auto
          qed
        qed
      qed
      then show False using i g j by auto
    qed
  qed
qed

text \<open>
  C1. The grouping pass partitions the message list. The groups, concatenated in
  order, are the input list; no group is empty; running the pass again on the
  unchanged list (the concatenation of its own groups) yields the same groups; and
  when the messages carry distinct document ids, every message of the list lies in
  the group at exactly one position.
\<close>

theorem grouping_partitions_messages:
  "concat (groupMessages fmt ms) = ms \<and>
   [] \<notin> set (groupMessages fmt ms) \<and>
   groupMessages fmt (concat (groupMessages fmt ms)) = groupMessages fmt ms \<and>
   (distinct (map msg_id ms) \<longrightarrow>
      (\<forall>m \<in> set ms. \<exists>!i. i < length (groupMessages fmt ms) \<and> m \<in> set (groupMessages fmt ms ! i)))"
proof (intro conjI impI ballI)
  show c: "concat (groupMessages fmt ms) = ms" by (rule concat_groupMessages)
  show "[] \<notin> set (groupMessages fmt ms)" by (rule groupMessages_nonempty)
  show "groupMessages fmt (concat (groupMessages fmt ms)) = groupMessages fmt ms"
    by (simp only: c)
next
  fix m assume d: "distinct (map msg_id ms)" and m: "m \<in> set ms"
  have "distinct ms" using d by (simp add: distinct_map)
  then have "distinct (concat (groupMessages fmt ms))"
    by (simp only: concat_groupMessages)
  moreover have "m \<in> set (concat (groupMessages fmt ms))"
    using m by (simp only: concat_groupMessages)
  ultimately show "\<exists>!i. i < length (groupMessages fmt ms) \<and> m \<in> set (groupMessages fmt ms ! i)"
    by (rule unique_group_of_distinct_concat)
qed

theorem grouping_partitions_messages_witness:
  "distinct (map msg_id [plain_message ''m1'' ''A'' 0, plain_message ''m2'' ''B'' 1]) \<and>
   concat (groupMessages (\<lambda>t. ''d'') [plain_message ''m1'' ''A'' 0, plain_message ''m2'' ''B'' 1])
     = [plain_message ''m1'' ''A'' 0, plain_message ''m2'' ''B'' 1] \<and>
   (\<exists>!i. i < length (groupMessages (\<lambda>t. ''d'') [plain_message ''m1'' ''A'' 0, plain_message ''m2'' ''B'' 1])
        \<and> plain_message ''m2'' ''B'' 1
            \<in> set (groupMessages (\<lambda>t. ''d'') [plain_message ''m1'' ''A'' 0, plain_message ''m2'' ''B'' 1] ! i))"
proof -
  have d: "distinct (map msg_id [plain_message ''m1'' ''A'' 0, plain_message ''m2'' ''B'' 1])"
    by (simp add: plain_message_def)
  have m: "plain_message ''m2'' ''B'' 1 \<in> set [plain_message ''m1'' ''A'' 0, plain_message ''m2'' ''B'' 1]"
    by simp
  show ?thesis
    using d m grouping_partitions_messages [of "\<lambda>t. ''d''" "[plain_message ''m1'' ''A'' 0, plain_message ''m2'' ''B'' 1]"]
    by blast
qed

text \<open>
  C2. The scenario list of four messages, whose first two fall on the same calendar
  day, is grouped into exactly three groups: the two early messages of A, the message
  of B, and the late message of A.
\<close>

theorem scenario_three_groups:
  assumes "fmt (d + 36000000) = fmt (d + 36030000)"
  shows "groupMessages fmt (scenario_messages d) =
     [[plain_message ''m1'' ''A'' (d + 36000000), plain_message ''m2'' ''A'' (d + 36030000)],
      [plain_message ''m3'' ''B'' (d + 36060000)],
      [plain_message ''m4'' ''A'' (d + 36600000)]]"
  using assms
  by (simp add: groupMessages_def scenario_messages_def group_step_def group_init_def
      starts_new_group_def gap_exceeded_def messageDate_def plain_message_def Let_def)

theorem scenario_three_groups_witness:
  "groupMessages (\<lambda>t. ''2024-05-01'') (scenario_messages 0) =
     [[plain_message ''m1'' ''A'' 36000000, plain_message ''m2'' ''A'' 36030000],
      [plain_message ''m3'' ''B'' 36060000],
      [plain_message ''m4'' ''A'' 36600000]]"
  using scenario_three_groups [of "\<lambda>t. ''2024-05-01''" 0] by simp

section \<open>Typing indicators\<close>

text \<open>
  When a snapshot is handled, the handler does what its comment says: every entry it
  stores comes from a document of another user whose time is less than ten seconds
  before the time of handling. No other event of the page changes the stored set.
\<close>

lemma typingList_foldl:
  "foldl (\<lambda>acc d.
        (case acc of
           Inl e \<Rightarrow> Inl e
         | Inr l \<Rightarrow>
             (case toDate (typing_timestamp (snd d)) of
                Inl e \<Rightarrow> Inl e
              | Inr None \<Rightarrow> Inr l
              | Inr (Some t) \<Rightarrow>
                  if now - t < 10000
                  then Inr (l @ [\<lparr>ti_id = fst d, ti_userId = typing_userId (snd d),
                                   ti_userName = typing_userName (snd d), ti_timestamp = t\<rparr>])
                  else Inr l))) acc docs = Inr l
   \<Longrightarrow> \<exists>l0. acc = Inr l0 \<and>
         (\<forall>e \<in> set l. e \<in> set l0 \<or>
            (\<exists>d \<in> set docs. ti_id e = fst d \<and> ti_userId e = typing_userId (snd d) \<and>
               typing_timestamp (snd d) = FirestoreTimestamp (ti_timestamp e) \<and>
               now - ti_timestamp e < 10000))"
proof (induction docs arbitrary: acc)
  case Nil
  then show ?case by simp
next
  case (Cons d docs)
  from Cons.IH [OF Cons.prems [simplified]]
  show ?case
    by (cases acc; cases "typing_timestamp (snd d)")
       (auto simp: toDate_def split: if_splits)
qed

lemma typing_entries_fresh_at_snapshot:
  assumes "typingList now (typingQuery viewer docs) = Inr l" and "e \<in> set l"
  shows "ti_userId e \<noteq> Some viewer \<and> now - ti_timestamp e < 10000 \<and>
         (\<exists>d \<in> set docs. ti_id e = fst d \<and> typing_timestamp (snd d) = FirestoreTimestamp (ti_timestamp e))"
proof -
  from typingList_foldl [OF assms(1) [unfolded typingList_def]] assms(2)
  obtain d where d: "d \<in> set (typingQuery viewer docs)" "ti_id e = fst d"
      "ti_userId e = typing_userId (snd d)"
      "typing_timestamp (snd d) = FirestoreTimestamp (ti_timestamp e)"
      "now - ti_timestamp e < 10000"
    by auto
  from d(1) have "d \<in> set docs" "typing_userId (snd d) \<noteq> Some viewer"
    by (auto simp: typingQuery_def split: option.splits)
  then show ?thesis using d by auto
qed

lemma typingUsers_kept:
  "(\<And>t ds. ev \<noteq> TypingSnapshot t ds) \<Longrightarrow>
   typingUsers (page_step chatId currentUser st ev) = typingUsers st"
  by (cases ev) (auto simp: handleFileChange_def uploadSettled_def removeFileUpload_def
      handleMessageChange_def typingTimeout_def handleSendMessage_def Let_def split: option.splits)

text \<open>
  C5, a defect of the code. The set is filtered only when a snapshot is handled and
  then stored; what is shown later is the stored set, not filtered again. The set
  computed from the snapshot handled at 5000 ms is still shown at 20000 ms, with an
  entry of time 0, twenty seconds old, although the handler's comment says that only
  indicators of the last ten seconds are shown.
\<close>

theorem stale_typing_entry_still_shown:
  "shownTyping
     (typingUsers (page_run (Some ''c1'') (Some \<lparr>user_uid = ''A'', user_displayName = Some ''Ann''\<rparr>)
        [TypingSnapshot 5000 [typing_doc ''A'' 4000, typing_doc ''B'' 0]]))
     20000
   = [\<lparr>ti_id = ''B'', ti_userId = Some ''B'', ti_userName = Some ''B'', ti_timestamp = 0\<rparr>] \<and>
   (20000::int) - 0 \<ge> 10000"
  by (simp add: shownTyping_def page_run_def page_init_def typingList_def typingQuery_def
      typing_doc_def toDate_def)

section \<open>Pinned messages\<close>

text \<open>
  C6, as the code has it. The pinned subset holds exactly the pinned messages of the
  list, in the order of the list: it is a subsequence, so it is ascending in time
  whenever the message list is.
\<close>

theorem pinned_subset_in_list_order:
  "set (pinnedMessages ms) = {m \<in> set ms. isPinned m} \<and>
   subseq (pinnedMessages ms) ms \<and>
   (timestamps_ascending ms \<longrightarrow> timestamps_ascending (pinnedMessages ms))"
  by (simp add: pinnedMessages_def timestamps_ascending_def sorted_wrt_filter)

theorem pinned_subset_in_list_order_witness:
  "timestamps_ascending [pinned_message ''m1'' ''A'' 1000, plain_message ''m2'' ''B'' 2000, pinned_message ''m3'' ''A'' 3000] \<and>
   timestamps_ascending (pinnedMessages [pinned_message ''m1'' ''A'' 1000, plain_message ''m2'' ''B'' 2000, pinned_message ''m3'' ''A'' 3000]) \<and>
   subseq (pinnedMessages [pinned_message ''m1'' ''A'' 1000, plain_message ''m2'' ''B'' 2000, pinned_message ''m3'' ''A'' 3000])
     [pinned_message ''m1'' ''A'' 1000, plain_message ''m2'' ''B'' 2000, pinned_message ''m3'' ''A'' 3000]"
proof -
  have a: "timestamps_ascending [pinned_message ''m1'' ''A'' 1000, plain_message ''m2'' ''B'' 2000, pinned_message ''m3'' ''A'' 3000]"
    by (simp add: timestamps_ascending_def pinned_message_def plain_message_def)
  show ?thesis
    using a pinned_subset_in_list_order [of "[pinned_message ''m1'' ''A'' 1000, plain_message ''m2'' ''B'' 2000, pinned_message ''m3'' ''A'' 3000]"]
    by blast
qed

text \<open>
  C6 as stated fails: on a list in ascending time order, as the messages query
  delivers it, the pinned subset is in ascending order too, not descending.
\<close>

theorem pinned_not_descending:
  "timestamps_ascending [pinned_message ''m1'' ''A'' 1000, plain_message ''m2'' ''B'' 2000, pinned_message ''m3'' ''A'' 3000] \<and>
   pinnedMessages [pinned_message ''m1'' ''A'' 1000, plain_message ''m2'' ''B'' 2000, pinned_message ''m3'' ''A'' 3000]
     = [pinned_message ''m1'' ''A'' 1000, pinned_message ''m3'' ''A'' 3000] \<and>
   \<not> timestamps_descending
       (pinnedMessages [pinned_message ''m1'' ''A'' 1000, plain_message ''m2'' ''B'' 2000, pinned_message ''m3'' ''A'' 3000])"
  by (simp add: pinnedMessages_def timestamps_descending_def timestamps_ascending_def
      pinned_message_def plain_message_def)

section \<open>Decoding message documents\<close>

lemma decodeMessage_Inr:
  "data_timestamp (snd d) \<noteq> OtherValue \<Longrightarrow>
   decodeMessage d =
     Inr \<lparr>msg_id = fst d, msg_text = data_text (snd d), senderId = data_senderId (snd d),
          senderName = data_senderName (snd d),
          timestamp = (case data_timestamp (snd d) of FirestoreTimestamp t \<Rightarrow> Some t | _ \<Rightarrow> None),
          files = (case data_files (snd d) of None \<Rightarrow> [] | Some fs \<Rightarrow> fs),
          isEdited = (case data_isEdited (snd d) of None \<Rightarrow> False | Some b \<Rightarrow> b),
          isPinned = (case data_isPinned (snd d) of None \<Rightarrow> False | Some b \<Rightarrow> b)\<rparr>"
  by (cases "data_timestamp (snd d)") (simp_all add: decodeMessage_def toDate_def)

lemma onMessagesSnapshot_Inr:
  assumes "\<forall>d \<in> set docs. data_timestamp (snd d) \<noteq> OtherValue"
  shows "onMessagesSnapshot docs =
     Inr (map (\<lambda>d. \<lparr>msg_id = fst d, msg_text = data_text (snd d), senderId = data_senderId (snd d),
          senderName = data_senderName (snd d),
          timestamp = (case data_timestamp (snd d) of FirestoreTimestamp t \<Rightarrow> Some t | _ \<Rightarrow> None),
          files = (case data_files (snd d) of None \<Rightarrow> [] | Some fs \<Rightarrow> fs),
          isEdited = (case data_isEdited (snd d) of None \<Rightarrow> False | Some b \<Rightarrow> b),
          isPinned = (case data_isPinned (snd d) of None \<Rightarrow> False | Some b \<Rightarrow> b)\<rparr>) docs)"
proof -
  let ?m = "\<lambda>d. \<lparr>msg_id = fst d, msg_text = data_text (snd d), senderId = data_senderId (snd d),
          senderName = data_senderName (snd d),
          timestamp = (case data_timestamp (snd d) of FirestoreTimestamp t \<Rightarrow> Some t | _ \<Rightarrow> None),
          files = (case data_files (snd d) of None \<Rightarrow> [] | Some fs \<Rightarrow> fs),
          isEdited = (case data_isEdited (snd d) of None \<Rightarrow> False | Some b \<Rightarrow> b),
          isPinned = (case data_isPinned (snd d) of None \<Rightarrow> False | Some b \<Rightarrow> b)\<rparr>"
  have "\<forall>d \<in> set ds. data_timestamp (snd d) \<noteq> OtherValue \<Longrightarrow>
        foldl (\<lambda>acc d.
        (case acc of
           Inl e \<Rightarrow> Inl e
         | Inr messagesList \<Rightarrow>
             (case decodeMessage d of
                Inl e \<Rightarrow> Inl e
              | Inr message \<Rightarrow> Inr (messagesList @ [message])))) (Inr acc) ds
        = Inr (acc @ map ?m ds)" for acc ds
    by (induction ds arbitrary: acc) (simp_all add: decodeMessage_Inr)
  from this [OF assms, of "[]"] show ?thesis by (simp add: onMessagesSnapshot_def)
qed

text \<open>
  A document whose timestamp is present and is not a Firestore \<open>Timestamp\<close> ends the
  callback with an exception: no list is given to \<open>setMessages\<close> and the page keeps the
  messages it had.
\<close>

lemma onMessagesSnapshot_throws:
  assumes "d \<in> set docs" and "data_timestamp (snd d) = OtherValue"
  shows "(\<exists>e. onMessagesSnapshot docs = Inl e) \<and> messagesAfterSnapshot docs messages = messages"
proof -
  let ?f = "\<lambda>acc d.
        (case acc of
           Inl e \<Rightarrow> Inl e
         | Inr messagesList \<Rightarrow>
             (case decodeMessage d of
                Inl e \<Rightarrow> Inl e
              | Inr message \<Rightarrow> Inr (messagesList @ [message])))"
  have l: "foldl ?f (Inl e) ds = Inl e" for e ds
    by (induction ds) simp_all
  have b: "decodeMessage d = Inl TypeError"
    using assms(2) by (simp add: decodeMessage_def toDate_def)
  have "d \<in> set ds \<Longrightarrow> \<exists>e. foldl ?f acc ds = Inl e" for acc ds
  proof (induction ds arbitrary: acc)
    case Nil
    then show ?case by simp
  next
    case (Cons x ds)
    show ?case
    proof (cases "x = d")
      case True
      then show ?thesis using b l by (cases acc) simp_all
    next
      case False
      then show ?thesis using Cons by simp
    qed
  qed
  from this [OF assms(1), of "Inr []"] show ?thesis
    by (auto simp: onMessagesSnapshot_def messagesAfterSnapshot_def)
qed

text \<open>
  C7, as the code has it. The decoder checks no field. Of a snapshot in which every
  timestamp is absent or a Firestore \<open>Timestamp\<close>, no document is skipped and none
  fails: the result has one message per document, in order, with the document's id;
  sender id, sender name and text are copied, absent or not; the timestamp is
  converted, an absent one stays absent; absent files, edit and pin flags take their
  defaults.
\<close>

theorem decoder_without_validation:
  assumes "\<forall>d \<in> set docs. data_timestamp (snd d) \<noteq> OtherValue"
  shows "\<exists>messagesList.
     onMessagesSnapshot docs = Inr messagesList \<and>
     messagesAfterSnapshot docs messages = messagesList \<and>
     length messagesList = length docs \<and>
     map msg_id messagesList = map fst docs \<and>
     map senderId messagesList = map (\<lambda>d. data_senderId (snd d)) docs \<and>
     map senderName messagesList = map (\<lambda>d. data_senderName (snd d)) docs \<and>
     map msg_text messagesList = map (\<lambda>d. data_text (snd d)) docs \<and>
     map timestamp messagesList
       = map (\<lambda>d. case data_timestamp (snd d) of FirestoreTimestamp t \<Rightarrow> Some t | _ \<Rightarrow> None) docs \<and>
     map files messagesList
       = map (\<lambda>d. case data_files (snd d) of None \<Rightarrow> [] | Some fs \<Rightarrow> fs) docs \<and>
     map isPinned messagesList = map (\<lambda>d. data_isPinned (snd d) = Some True) docs \<and>
     map isEdited messagesList = map (\<lambda>d. data_isEdited (snd d) = Some True) docs"
  using onMessagesSnapshot_Inr [OF assms]
  by (auto simp: messagesAfterSnapshot_def split: option.splits)

theorem decoder_without_validation_witness:
  "\<exists>messagesList.
     onMessagesSnapshot [(''m1'', record_without_sender),
        (''m2'', record_without_sender\<lparr>data_senderId := Some ''A'', data_timestamp := NoTimestamp\<rparr>)]
       = Inr messagesList \<and>
     length messagesList = 2 \<and>
     map msg_id messagesList = [''m1'', ''m2''] \<and>
     map senderId messagesList = [None, Some ''A''] \<and>
     map senderName messagesList = [Some ''Ann'', Some ''Ann''] \<and>
     map timestamp messagesList = [Some 1000, None]"
  using decoder_without_validation [of "[(''m1'', record_without_sender),
        (''m2'', record_without_sender\<lparr>data_senderId := Some ''A'', data_timestamp := NoTimestamp\<rparr>)]" "[]"]
  by (auto simp: record_without_sender_def)

text \<open>
  C7 as stated fails: a record without a sender id is malformed in the specification's
  sense, yet it is decoded to a message without a sender and kept in the list.
\<close>

theorem malformed_record_decoded_not_skipped:
  "spec_malformed record_without_sender \<and>
   onMessagesSnapshot [(''m1'', record_without_sender)] =
     Inr [\<lparr>msg_id = ''m1'', msg_text = Some ''hello'', senderId = None, senderName = Some ''Ann'',
       timestamp = Some 1000, files = [], isEdited = False, isPinned = False\<rparr>]"
  by (simp add: spec_malformed_def record_without_sender_def onMessagesSnapshot_def
      decodeMessage_def toDate_def)

section \<open>Attachments of the outgoing message\<close>

lemma upload_ok_newUpload: "upload_ok (newUpload f)"
  by (simp add: upload_ok_def newUpload_def)

lemma page_ok_init: "page_ok page_init"
  by (simp add: page_ok_def page_init_def)

lemma page_ok_handleFileChange:
  assumes "page_ok st" shows "page_ok (handleFileChange fs st)"
proof (cases "fs = []")
  case True
  then show ?thesis using assms by (simp add: handleFileChange_def)
next
  case False
  have all: "list_all upload_ok (fileUploads st @ map newUpload fs)"
    using assms by (auto simp: page_ok_def list_all_iff upload_ok_newUpload)
  have fresh: "list_all (\<lambda>i. length (fileUploads st) + i < length (fileUploads st @ map newUpload fs) \<and>
                     up_url ((fileUploads st @ map newUpload fs) ! (length (fileUploads st) + i)) = [] \<and>
                     up_id ((fileUploads st @ map newUpload fs) ! (length (fileUploads st) + i)) = [])
                  [0..<length (map newUpload fs)]"
    by (simp add: list_all_iff nth_append newUpload_def)
  show ?thesis
    using assms False all fresh
    by (simp add: handleFileChange_def page_ok_def batch_ok_def Let_def)
qed

lemma upload_ok_settled:
  "up_url u = [] \<and> up_id u = [] \<Longrightarrow> upload_ok (settled_upload u outcome)"
  by (cases outcome) (simp_all add: settled_upload_def upload_ok_def)

lemma list_all_update:
  "list_all P xs \<Longrightarrow> P x \<Longrightarrow> list_all P (xs[i := x])"
  using set_update_subset_insert [of xs i x] by (auto simp: list_all_iff)

lemma page_ok_uploadSettled:
  assumes ok: "page_ok st" shows "page_ok (uploadSettled b index outcome st)"
proof (cases "b < length (in_flight st) \<and> index \<in> set (b_pending (in_flight st ! b))")
  case False
  then have "uploadSettled b index outcome st = st"
    unfolding uploadSettled_def by (rule if_not_P)
  then show ?thesis using ok by simp
next
  case True
  define batch where "batch = in_flight st ! b"
  define k where "k = b_base batch + index"
  define arr where "arr = (b_updatedUploads batch)[k := settled_upload (b_updatedUploads batch ! k) outcome]"
  have bok: "batch_ok batch"
    using ok True by (simp add: page_ok_def list_all_iff batch_def)
  have idx: "index \<in> set (b_pending batch)" using True by (simp add: batch_def)
  have fresh: "k < length (b_updatedUploads batch)" "up_url (b_updatedUploads batch ! k) = []"
    "up_id (b_updatedUploads batch ! k) = []"
    using bok idx by (auto simp: batch_ok_def list_all_iff k_def)
  have arr_ok: "list_all upload_ok arr"
    unfolding arr_def
    using bok fresh by (intro list_all_update upload_ok_settled) (simp_all add: batch_ok_def)
  have pend: "list_all (\<lambda>i. b_base batch + i < length arr \<and>
                     up_url (arr ! (b_base batch + i)) = [] \<and>
                     up_id (arr ! (b_base batch + i)) = []) (removeAll index (b_pending batch))"
    using bok by (auto simp: batch_ok_def list_all_iff arr_def k_def)
  have b': "batch_ok (batch\<lparr>b_updatedUploads := arr, b_pending := removeAll index (b_pending batch)\<rparr>)"
    using arr_ok pend by (simp add: batch_ok_def)
  have "list_all batch_ok ((in_flight st)[b := batch\<lparr>b_updatedUploads := arr, b_pending := removeAll index (b_pending batch)\<rparr>])"
    using ok b' by (intro list_all_update) (simp_all add: page_ok_def)
  then show ?thesis
    using True arr_ok
    by (simp add: uploadSettled_def Let_def page_ok_def batch_def [symmetric] k_def [symmetric] arr_def [symmetric])
qed

lemma page_ok_removeFileUpload: "page_ok st \<Longrightarrow> page_ok (removeFileUpload index st)"
  by (auto simp: removeFileUpload_def page_ok_def list_all_iff dest: in_set_takeD in_set_dropD)

lemma page_ok_send: "page_ok st \<Longrightarrow> page_ok (sr_page (handleSendMessage chatId currentUser add_ok upd_ok st))"
  by (auto simp: handleSendMessage_def page_ok_def Let_def split: option.splits)

lemma page_ok_step: "page_ok st \<Longrightarrow> page_ok (page_step chatId currentUser st ev)"
proof (cases ev)
  case (FileChange fs)
  assume "page_ok st" then show ?thesis using FileChange by (simp add: page_ok_handleFileChange)
next
  case (UploadSettled b i outcome)
  assume "page_ok st" then show ?thesis using UploadSettled by (simp add: page_ok_uploadSettled)
next
  case (RemoveFileUpload i)
  assume "page_ok st" then show ?thesis using RemoveFileUpload by (simp add: page_ok_removeFileUpload)
next
  case (MessageChange v)
  assume "page_ok st" then show ?thesis using MessageChange
    by (simp add: page_ok_def handleMessageChange_def)
next
  case (TypingTimeout captured)
  assume "page_ok st" then show ?thesis using TypingTimeout
    by (simp add: page_ok_def typingTimeout_def)
next
  case (TypingSnapshot now docs)
  assume "page_ok st" then show ?thesis using TypingSnapshot
    by (simp add: page_ok_def split: option.splits sum.splits)
next
  case (SendMessage a u)
  assume "page_ok st" then show ?thesis using SendMessage by (simp add: page_ok_send)
qed

lemma page_ok_foldl: "page_ok st \<Longrightarrow> page_ok (foldl (page_step chatId currentUser) st evs)"
  by (induction evs arbitrary: st) (simp_all add: page_ok_step)

lemma page_ok_run: "page_ok (page_run chatId currentUser evs)"
  by (simp add: page_run_def page_ok_foldl page_ok_init)

lemma outgoing_files_succeeded:
  assumes "list_all upload_ok us"
  shows "outgoing_files us =
     map attachment_of (filter (\<lambda>u. upload_state_of u = Succeeded \<and> up_url u \<noteq> [] \<and> up_id u \<noteq> []) us)"
proof -
  have "filter (\<lambda>upload. up_url upload \<noteq> [] \<and> up_id upload \<noteq> []) us
      = filter (\<lambda>u. upload_state_of u = Succeeded \<and> up_url u \<noteq> [] \<and> up_id u \<noteq> []) us"
    using assms by (intro filter_cong) (auto simp: list_all_iff upload_ok_def upload_state_of_def)
  then show ?thesis by (simp add: outgoing_files_def)
qed

lemma sr_addDoc_files:
  "sr_addDoc (handleSendMessage chatId currentUser add_ok upd_ok st) = Some message
     \<Longrightarrow> om_files message = outgoing_files (fileUploads st)"
  by (auto simp: handleSendMessage_def Let_def split: option.splits if_splits)

text \<open>
  C8. After any run of the page's events, the message that the send operation gives to
  the database carries exactly the attachments of the pending uploads that are marked
  succeeded (progress 100) and have a remote id and url, in order. Every attachment of
  the message comes from such an upload, and an upload that is failed or still in
  progress is never among the uploads the message is built from.
\<close>

theorem sent_attachments_succeeded:
  assumes "st = page_run chatId currentUser evs"
    and "sr_addDoc (handleSendMessage chatId currentUser add_ok upd_ok st) = Some message"
  shows "om_files message =
           map attachment_of
             (filter (\<lambda>u. upload_state_of u = Succeeded \<and> up_url u \<noteq> [] \<and> up_id u \<noteq> [])
                (fileUploads st)) \<and>
         (\<forall>a \<in> set (om_files message).
            \<exists>u \<in> set (fileUploads st). a = attachment_of u \<and> upload_state_of u = Succeeded) \<and>
         (\<forall>u \<in> set (fileUploads st).
            upload_state_of u = Failed \<or> upload_state_of u = InProgress \<longrightarrow>
              u \<notin> set (filter (\<lambda>upload. up_url upload \<noteq> [] \<and> up_id upload \<noteq> []) (fileUploads st)))"
proof -
  have ok: "list_all upload_ok (fileUploads st)"
    using page_ok_run [of chatId currentUser evs] assms(1) by (simp add: page_ok_def)
  have eq: "om_files message =
           map attachment_of
             (filter (\<lambda>u. upload_state_of u = Succeeded \<and> up_url u \<noteq> [] \<and> up_id u \<noteq> [])
                (fileUploads st))"
    using sr_addDoc_files [OF assms(2)] outgoing_files_succeeded [OF ok] by simp
  have excl: "\<forall>u \<in> set (fileUploads st).
            upload_state_of u = Failed \<or> upload_state_of u = InProgress \<longrightarrow>
              u \<notin> set (filter (\<lambda>upload. up_url upload \<noteq> [] \<and> up_id upload \<noteq> []) (fileUploads st))"
    using ok by (auto simp: list_all_iff upload_ok_def upload_state_of_def split: if_splits)
  show ?thesis using eq excl by auto
qed

lemma sample_page_uploads:
  "fileUploads (page_run (Some ''c1'') (Some sample_user) sample_events) =
     [(newUpload sample_file)\<lparr>up_url := ''https://files/f1/view'',
         up_downloadUrl := ''https://files/f1/download'', up_id := ''f1'', up_progress := 100\<rparr>,
      (newUpload (sample_file\<lparr>lf_name := ''dog.png''\<rparr>))\<lparr>up_progress := - 1\<rparr>]"
  by (simp add: page_run_def sample_events_def page_init_def handleMessageChange_def
      handleFileChange_def uploadSettled_def settled_upload_def sample_result_def Let_def)

lemma sample_page_text:
  "messageText (page_run (Some ''c1'') (Some sample_user) sample_events) = ''look''"
  by (simp add: page_run_def sample_events_def page_init_def handleMessageChange_def
      handleFileChange_def uploadSettled_def settled_upload_def sample_result_def Let_def)

lemma trim_look: "trim ''look'' = ''look''"
  by (simp add: trim_def is_space_def)

lemma sample_send:
  "sr_addDoc (handleSendMessage (Some ''c1'') (Some sample_user) True True
      (page_run (Some ''c1'') (Some sample_user) sample_events)) = Some sample_sent"
proof -
  have "outgoing_files (fileUploads (page_run (Some ''c1'') (Some sample_user) sample_events))
      = om_files sample_sent"
    by (simp add: sample_page_uploads outgoing_files_def attachment_of_def newUpload_def
        sample_file_def fileTypeOf_def sample_sent_def)
  then show ?thesis
    by (simp add: handleSendMessage_def Let_def sample_page_text trim_look sample_page_uploads)
       (simp add: sample_user_def sample_sent_def)
qed

theorem sent_attachments_succeeded_witness:
  "sr_addDoc (handleSendMessage (Some ''c1'') (Some sample_user) True True
      (page_run (Some ''c1'') (Some sample_user) sample_events)) = Some sample_sent \<and>
   map upload_state_of (fileUploads (page_run (Some ''c1'') (Some sample_user) sample_events))
     = [Succeeded, Failed] \<and>
   om_files sample_sent =
     map attachment_of
       (filter (\<lambda>u. upload_state_of u = Succeeded \<and> up_url u \<noteq> [] \<and> up_id u \<noteq> [])
          (fileUploads (page_run (Some ''c1'') (Some sample_user) sample_events))) \<and>
   length (om_files sample_sent) = 1"
proof -
  have s: "map upload_state_of (fileUploads (page_run (Some ''c1'') (Some sample_user) sample_events))
     = [Succeeded, Failed]"
    by (simp add: sample_page_uploads upload_state_of_def newUpload_def)
  have l: "length (om_files sample_sent) = 1" by (simp add: sample_sent_def)
  show ?thesis
    using s l sample_send
      sent_attachments_succeeded [OF refl sample_send]
    by blast
qed

section \<open>Failure of the send\<close>

text \<open>
  C9. When the send passes its guard and one of its two writes fails, the composed text
  and the pending attachments are as before and the failure alert is raised. When both
  writes succeed the text and the attachments are cleared and no alert is raised. In
  every case, the text or the attachments change only if both writes were made and
  succeeded.
\<close>

theorem failed_send_keeps_composition:
  "(currentUser \<noteq> None \<and> chatId \<noteq> None \<and> chatId \<noteq> Some [] \<and>
      (trim (messageText st) \<noteq> [] \<or> fileUploads st \<noteq> []) \<and> \<not> (add_ok \<and> upd_ok) \<longrightarrow>
        messageText (sr_page (handleSendMessage chatId currentUser add_ok upd_ok st)) = messageText st \<and>
        fileUploads (sr_page (handleSendMessage chatId currentUser add_ok upd_ok st)) = fileUploads st \<and>
        alerts (sr_page (handleSendMessage chatId currentUser add_ok upd_ok st))
          = alerts st @ [send_failed_alert]) \<and>
   (currentUser \<noteq> None \<and> chatId \<noteq> None \<and> chatId \<noteq> Some [] \<and>
      (trim (messageText st) \<noteq> [] \<or> fileUploads st \<noteq> []) \<and> add_ok \<and> upd_ok \<longrightarrow>
        messageText (sr_page (handleSendMessage chatId currentUser add_ok upd_ok st)) = [] \<and>
        fileUploads (sr_page (handleSendMessage chatId currentUser add_ok upd_ok st)) = [] \<and>
        alerts (sr_page (handleSendMessage chatId currentUser add_ok upd_ok st)) = alerts st) \<and>
   (messageText (sr_page (handleSendMessage chatId currentUser add_ok upd_ok st)) \<noteq> messageText st \<or>
    fileUploads (sr_page (handleSendMessage chatId currentUser add_ok upd_ok st)) \<noteq> fileUploads st \<longrightarrow>
        add_ok \<and> upd_ok \<and>
        sr_addDoc (handleSendMessage chatId currentUser add_ok upd_ok st) \<noteq> None \<and>
        sr_updateDoc (handleSendMessage chatId currentUser add_ok upd_ok st) \<noteq> None)"
  by (auto simp: handleSendMessage_def Let_def split: option.splits)

theorem failed_send_keeps_composition_witness:
  "messageText (sr_page (handleSendMessage (Some ''c1'') (Some sample_user) False True composed_page)) = ''look'' \<and>
   alerts (sr_page (handleSendMessage (Some ''c1'') (Some sample_user) False True composed_page))
     = [send_failed_alert] \<and>
   messageText (sr_page (handleSendMessage (Some ''c1'') (Some sample_user) True False composed_page)) = ''look'' \<and>
   messageText (sr_page (handleSendMessage (Some ''c1'') (Some sample_user) True True composed_page)) = [] \<and>
   alerts (sr_page (handleSendMessage (Some ''c1'') (Some sample_user) True True composed_page)) = []"
proof -
  have g: "Some sample_user \<noteq> None \<and> Some ''c1'' \<noteq> None \<and> Some ''c1'' \<noteq> Some [] \<and>
      (trim (messageText composed_page) \<noteq> [] \<or> fileUploads composed_page \<noteq> [])"
    by (simp add: composed_page_def page_init_def trim_look)
  have t: "messageText composed_page = ''look''" "alerts composed_page = []"
    by (simp_all add: composed_page_def page_init_def)
  show ?thesis
    using g t
      failed_send_keeps_composition [of "Some sample_user" "Some ''c1''" composed_page False True]
      failed_send_keeps_composition [of "Some sample_user" "Some ''c1''" composed_page True False]
      failed_send_keeps_composition [of "Some sample_user" "Some ''c1''" composed_page True True]
    by simp
qed

section \<open>Unread counters\<close>

lemma set_alist_update: "set (AList.update k v al) \<subseteq> insert (k, v) (set al)"
  by (induction al) auto

subsection \<open>Rounding\<close>


lemma round_double_nonneg: "0 \<le> n \<Longrightarrow> 0 \<le> round_double n"
  by (simp add: round_double_def Let_def sgn_if pos_imp_zdiv_nonneg_iff)

lemma js_plus_one_nonneg: "0 \<le> c \<Longrightarrow> 0 \<le> js_plus_one c"
  by (simp add: js_plus_one_def round_double_nonneg)

lemma js_plus_one_2_53: "js_plus_one (2 ^ 53) = 2 ^ 53"
  by code_simp

subsection \<open>Field paths of plain member ids\<close>











subsection \<open>The entries of the update\<close>

lemma unread_updates_foldl:
  "map_of (foldl (\<lambda>updateData memberId.
              if memberId \<noteq> uid
              then AList.update memberId (or_zero_plus_one (unread_read chatData memberId)) updateData
              else updateData) acc ms) m
   = (if m \<in> set ms \<and> m \<noteq> uid then Some (or_zero_plus_one (unread_read chatData m))
      else map_of acc m)"
  by (induction ms arbitrary: acc) (auto simp: update_conv')

lemma map_of_unread_updates:
  "map_of (unread_updates uid chatData) m
   = (if m \<in> set (members chatData) \<and> m \<noteq> uid
      then Some (or_zero_plus_one (unread_read chatData m)) else None)"
  by (simp add: unread_updates_def unread_updates_foldl)

lemma distinct_unread_updates_foldl:
  "distinct (map fst acc) \<Longrightarrow>
   distinct (map fst (foldl (\<lambda>updateData memberId.
              if memberId \<noteq> uid
              then AList.update memberId (or_zero_plus_one (unread_read chatData memberId)) updateData
              else updateData) acc ms))"
  by (induction ms arbitrary: acc) (simp_all add: distinct_update)

lemma distinct_unread_updates: "distinct (map fst (unread_updates uid chatData))"
  by (simp add: unread_updates_def distinct_unread_updates_foldl)



subsection \<open>No negative counter\<close>

lemma counts_nonneg_update_path:
  assumes "counts_nonneg (Some m)" "case v of Num c \<Rightarrow> 0 \<le> c | _ \<Rightarrow> True"
  shows "counts_nonneg (Some (update_path segs v m))"
proof (cases segs)
  case Nil
  then show ?thesis using assms by simp
next
  case (Cons k ks)
  show ?thesis
  proof (cases ks)
    case Nil
    then show ?thesis
      using assms Cons set_alist_update [of k v m]
      by (auto simp: counts_nonneg_def list_all_iff)
  next
    case (Cons k' ks')
    then show ?thesis
      using assms \<open>segs = k # ks\<close>
        set_alist_update [of k "Map (update_path (k' # ks') v (case map_of m k of Some (Map sub) \<Rightarrow> sub | _ \<Rightarrow> []))" m]
      by (auto simp: counts_nonneg_def list_all_iff)
  qed
qed

lemma counts_nonneg_foldl_update_path:
  assumes "counts_nonneg (Some m)"
    and "\<forall>kv \<in> set upd. (case snd kv of Num c \<Rightarrow> 0 \<le> c | _ \<Rightarrow> True)"
  shows "counts_nonneg (Some (foldl (\<lambda>m kv. update_path (f kv) (snd kv) m) m upd))"
  using assms by (induction upd arbitrary: m) (simp_all add: counts_nonneg_update_path)

lemma counts_nonneg_update_unreadCounts:
  assumes "counts_nonneg counts"
    and "\<forall>kv \<in> set upd. (case snd kv of Num c \<Rightarrow> 0 \<le> c | _ \<Rightarrow> True)"
    and "update_unreadCounts upd counts = Inr counts'"
  shows "counts_nonneg counts'"
proof -
  have e: "counts_nonneg (Some (case counts of None \<Rightarrow> [] | Some m \<Rightarrow> m))"
    using assms(1) by (simp add: counts_nonneg_def split: option.splits)
  show ?thesis
    using assms counts_nonneg_foldl_update_path [OF e assms(2)]
    by (auto simp: update_unreadCounts_def split: if_splits)
qed

lemma or_zero_plus_one_nonneg:
  assumes "counts_nonneg (unreadCounts chatData)"
  shows "case or_zero_plus_one (unread_read chatData m) of Num c \<Rightarrow> 0 \<le> c | _ \<Rightarrow> True"
proof (cases "unread_read chatData m")
  case None
  then show ?thesis by (simp add: or_zero_plus_one_def)
next
  case (Some v)
  show ?thesis
  proof (cases v)
    case (Num c)
    have "object_prototype k \<noteq> Some (Num c)" for k
      by (simp add: object_prototype_def)
    then obtain cs where cs: "unreadCounts chatData = Some cs" "map_of cs m = Some (Num c)"
      using Some Num by (auto simp: unread_read_def split: option.splits if_splits)
    then have "(m, Num c) \<in> set cs" by (simp add: map_of_SomeD)
    then have "0 \<le> c" using assms cs(1) by (fastforce simp: counts_nonneg_def list_all_iff)
    then show ?thesis using Some Num by (simp add: or_zero_plus_one_def js_plus_one_nonneg)
  next
    case (Str s)
    then show ?thesis using Some by (simp add: or_zero_plus_one_def)
  next
    case (Map sub)
    then show ?thesis using Some by (simp add: or_zero_plus_one_def)
  qed
qed

lemma unread_updates_values_nonneg:
  assumes "counts_nonneg (unreadCounts chatData)"
  shows "\<forall>kv \<in> set (unread_updates uid chatData). (case snd kv of Num c \<Rightarrow> 0 \<le> c | _ \<Rightarrow> True)"
proof
  fix kv assume kv: "kv \<in> set (unread_updates uid chatData)"
  then have "(fst kv, snd kv) \<in> set (unread_updates uid chatData)" by simp
  then have "map_of (unread_updates uid chatData) (fst kv) = Some (snd kv)"
    by (simp add: map_of_eq_Some_iff distinct_unread_updates)
  then have "snd kv = or_zero_plus_one (unread_read chatData (fst kv))"
    by (simp add: map_of_unread_updates split: if_splits)
  then show "case snd kv of Num c \<Rightarrow> 0 \<le> c | _ \<Rightarrow> True"
    using or_zero_plus_one_nonneg [OF assms, of "fst kv"] by simp
qed

lemma counters_nonneg_lookup:
  "counters_nonneg db \<Longrightarrow> map_of (chats db) c = Some chatData \<Longrightarrow> counts_nonneg (unreadCounts chatData)"
proof -
  assume n: "counters_nonneg db" and "map_of (chats db) c = Some chatData"
  then have "(c, chatData) \<in> set (chats db)" by (simp add: map_of_SomeD)
  then show ?thesis using n by (fastforce simp: counters_nonneg_def list_all_iff)
qed

lemma counters_nonneg_update:
  assumes "counters_nonneg db" "counts_nonneg (unreadCounts chatData')"
    and "chats db' = AList.update c chatData' (chats db)"
  shows "counters_nonneg db'"
  using assms set_alist_update [of c chatData' "chats db"]
  by (auto simp: counters_nonneg_def list_all_iff)

lemma counters_nonneg_sendMessage_write:
  assumes "counters_nonneg db" "counts_nonneg (unreadCounts chatData)"
  shows "counters_nonneg (snd (sendMessage_write chatId uid txt fs now newId chatData sender db))"
proof -
  let ?db1 = "db\<lparr>chat_messages := chat_messages db @
      [((chatId, newId), \<lparr>md_text = (case txt of None \<Rightarrow> [] | Some t \<Rightarrow> t),
             md_files = (case fs of None \<Rightarrow> [] | Some l \<Rightarrow> l),
             md_senderId = uid, md_senderName = sender,
             md_timestamp = now, md_isEdited = False, md_isPinned = False,
             md_readBy = [uid]\<rparr>)], writes := writes db + 1\<rparr>"
  have n1: "counters_nonneg ?db1" using assms(1) by (simp add: counters_nonneg_def)
  show ?thesis
  proof (cases "map_of (chats db) chatId")
    case None
    then show ?thesis using n1 by (simp add: sendMessage_write_def Let_def)
  next
    case (Some stored)
    have s: "counts_nonneg (unreadCounts stored)" using assms(1) Some by (rule counters_nonneg_lookup)
    show ?thesis
    proof (cases "update_unreadCounts (unread_updates uid chatData) (unreadCounts stored)")
      case (Inl e)
      then show ?thesis using n1 Some by (simp add: sendMessage_write_def Let_def)
    next
      case (Inr counts')
      have c: "counts_nonneg counts'"
        using s unread_updates_values_nonneg [OF assms(2)] Inr
        by (rule counts_nonneg_update_unreadCounts)
      let ?stored' = "stored\<lparr>lastMessageAt := Some now, lastMessageId := Some newId,
                            unreadCounts := counts'\<rparr>"
      have e: "chats (snd (sendMessage_write chatId uid txt fs now newId chatData sender db))
             = AList.update chatId ?stored' (chats ?db1)"
        using Some Inr by (simp add: sendMessage_write_def Let_def)
      have c': "counts_nonneg (unreadCounts ?stored')" using c by simp
      show ?thesis using n1 c' e by (rule counters_nonneg_update)
    qed
  qed
qed

lemma counters_nonneg_sendMessage:
  assumes "counters_nonneg db"
  shows "counters_nonneg (snd (sendMessage chatId uid txt fs now newId db))"
proof (cases "map_of (chats db) chatId")
  case None
  then show ?thesis using assms by (simp add: sendMessage_def)
next
  case (Some chatData)
  have c: "counts_nonneg (unreadCounts chatData)" using assms Some by (rule counters_nonneg_lookup)
  show ?thesis
    using assms Some counters_nonneg_sendMessage_write [OF assms c]
    by (simp add: sendMessage_def)
qed


lemma sendMessage_read_write:
  "sendMessage chatId uid txt fs now newId db =
     (case sendMessage_read chatId uid txt fs db of
        Inl status \<Rightarrow> (status, db)
      | Inr (chatData, sender) \<Rightarrow> sendMessage_write chatId uid txt fs now newId chatData sender db)"
  by (simp add: sendMessage_def sendMessage_read_def split: option.splits)




subsection \<open>The two handlers on plain member ids\<close>










section \<open>Marking a message as read\<close>

lemma markRead_already_read:
  "u \<in> set (readBy_of db messageId) \<Longrightarrow> snd (markRead (Some u) messageId db) = db"
  by (auto simp: markRead_def readBy_of_def Let_def split: option.splits)

lemma markRead_accepted:
  assumes "fst (markRead (Some u) messageId db) = 200"
  obtains messageData chatData where
    "map_of (messages_coll db) messageId = Some messageData"
    "map_of (chats db) (rm_chatId messageData) = Some chatData"
    "u \<in> set (members chatData)"
  using assms by (auto simp: markRead_def Let_def split: option.splits if_splits)

lemma readBy_of_markRead:
  assumes "fst (markRead (Some u) messageId db) = 200"
  shows "readBy_of (snd (markRead (Some u) messageId db)) messageId
       = (if u \<in> set (readBy_of db messageId) then readBy_of db messageId
          else readBy_of db messageId @ [u])"
  using assms
  by (auto simp: markRead_def readBy_of_def Let_def update_conv' split: option.splits if_splits)

lemma markRead_again:
  assumes "fst (markRead (Some u) messageId db) = 200"
  shows "markRead (Some u) messageId (snd (markRead (Some u) messageId db))
       = (200, snd (markRead (Some u) messageId db))"
proof -
  from assms obtain messageData chatData where
    m: "map_of (messages_coll db) messageId = Some messageData"
    and c: "map_of (chats db) (rm_chatId messageData) = Some chatData"
    and u: "u \<in> set (members chatData)"
    by (rule markRead_accepted)
  show ?thesis
    using m c u
    by (auto simp: markRead_def Let_def update_conv' split: option.splits)
qed

lemma readBy_distinct_lookup:
  assumes "readBy_distinct db" shows "distinct (readBy_of db messageId)"
proof (cases "map_of (messages_coll db) messageId")
  case None
  then show ?thesis by (simp add: readBy_of_def)
next
  case (Some messageData)
  then have "(messageId, messageData) \<in> set (messages_coll db)" by (rule map_of_SomeD)
  then have "distinct (case rm_readBy messageData of None \<Rightarrow> [] | Some r \<Rightarrow> r)"
    using assms by (fastforce simp: readBy_distinct_def list_all_iff)
  then show ?thesis using Some by (simp add: readBy_of_def)
qed

lemma readBy_distinct_markRead:
  assumes "readBy_distinct db" shows "readBy_distinct (snd (markRead userId messageId db))"
proof (cases "\<exists>u. userId = Some u \<and> fst (markRead userId messageId db) = 200 \<and> u \<notin> set (readBy_of db messageId)")
  case False
  then have "snd (markRead userId messageId db) = db"
    by (auto simp: markRead_def readBy_of_def Let_def split: option.splits if_splits)
  then show ?thesis using assms by simp
next
  case True
  then obtain u where u: "userId = Some u" "fst (markRead (Some u) messageId db) = 200"
    "u \<notin> set (readBy_of db messageId)" by auto
  from u(2) obtain messageData chatData where
    m: "map_of (messages_coll db) messageId = Some messageData"
    and c: "map_of (chats db) (rm_chatId messageData) = Some chatData"
    and mem: "u \<in> set (members chatData)"
    by (rule markRead_accepted)
  have r: "readBy_of db messageId = (case rm_readBy messageData of None \<Rightarrow> [] | Some r \<Rightarrow> r)"
    using m by (simp add: readBy_of_def)
  have d: "distinct (readBy_of db messageId @ [u])"
    using readBy_distinct_lookup [OF assms, of messageId] u(3) by simp
  have e: "messages_coll (snd (markRead userId messageId db))
         = AList.update messageId (messageData\<lparr>rm_readBy := Some (readBy_of db messageId @ [u])\<rparr>)
             (messages_coll db)"
    using u m c mem r by (simp add: markRead_def Let_def)
  show ?thesis
    using assms d set_alist_update [of messageId "messageData\<lparr>rm_readBy := Some (readBy_of db messageId @ [u])\<rparr>" "messages_coll db"]
    by (auto simp: readBy_distinct_def list_all_iff e)
qed

lemma count_list_distinct: "distinct xs \<Longrightarrow> x \<in> set xs \<Longrightarrow> count_list xs x = 1"
  by (induction xs) auto

lemma readBy_distinct_postMessage:
  assumes "readBy_distinct db"
  shows "readBy_distinct (snd (postMessage userId chatId content fileUrl fileType now newId db))"
  using assms
  by (auto simp: postMessage_def readBy_distinct_def Let_def split: option.splits)

text \<open>
  C10. Marking a message as read is idempotent. For a user who is already among the
  readers, the request leaves the database as it is: the list of readers is unchanged
  and no write is made. After an accepted request the user is among the readers, and
  the same request again is accepted and changes nothing. When the stored lists of
  readers have no duplicates, as they are created, the user is in the list exactly
  once after an accepted request, and the lists still have no duplicates.
\<close>

theorem markRead_idempotent:
  "(u \<in> set (readBy_of db messageId) \<longrightarrow>
      snd (markRead (Some u) messageId db) = db \<and>
      readBy_of (snd (markRead (Some u) messageId db)) messageId = readBy_of db messageId \<and>
      writes (snd (markRead (Some u) messageId db)) = writes db) \<and>
   (fst (markRead (Some u) messageId db) = 200 \<longrightarrow>
      u \<in> set (readBy_of (snd (markRead (Some u) messageId db)) messageId) \<and>
      markRead (Some u) messageId (snd (markRead (Some u) messageId db))
        = (200, snd (markRead (Some u) messageId db))) \<and>
   (readBy_distinct db \<and> fst (markRead (Some u) messageId db) = 200 \<longrightarrow>
      count_list (readBy_of (snd (markRead (Some u) messageId db)) messageId) u = 1 \<and>
      readBy_distinct (snd (markRead (Some u) messageId db)))"
proof (intro conjI impI)
  assume "u \<in> set (readBy_of db messageId)"
  then have e: "snd (markRead (Some u) messageId db) = db" by (rule markRead_already_read)
  show "snd (markRead (Some u) messageId db) = db" by (rule e)
  show "readBy_of (snd (markRead (Some u) messageId db)) messageId = readBy_of db messageId"
    by (simp only: e)
  show "writes (snd (markRead (Some u) messageId db)) = writes db" by (simp only: e)
next
  assume a: "fst (markRead (Some u) messageId db) = 200"
  show "u \<in> set (readBy_of (snd (markRead (Some u) messageId db)) messageId)"
    by (simp add: readBy_of_markRead [OF a])
  show "markRead (Some u) messageId (snd (markRead (Some u) messageId db))
        = (200, snd (markRead (Some u) messageId db))"
    using a by (rule markRead_again)
next
  assume a: "readBy_distinct db \<and> fst (markRead (Some u) messageId db) = 200"
  then have d: "readBy_distinct (snd (markRead (Some u) messageId db))"
    by (simp add: readBy_distinct_markRead)
  have "u \<in> set (readBy_of (snd (markRead (Some u) messageId db)) messageId)"
    using a by (simp add: readBy_of_markRead)
  then show "count_list (readBy_of (snd (markRead (Some u) messageId db)) messageId) u = 1"
    using readBy_distinct_lookup [OF d, of messageId] by (simp add: count_list_distinct)
  show "readBy_distinct (snd (markRead (Some u) messageId db))" by (rule d)
qed

lemma posted_db_eq:
  "posted_db = sample_db\<lparr>messages_coll := [(''m1'',
        \<lparr>rm_chatId = ''c1'', rm_senderId = ''a'', rm_timestamp = 10, rm_readBy = Some [''a''],
         rm_content = Some ''hi'', rm_fileUrl = None, rm_fileType = None\<rparr>)],
      chats := [(''c1'', sample_chat\<lparr>lastMessageTime := Some 10, lastMessage := Some ''hi''\<rparr>)],
      writes := 2\<rparr>"
  by (simp add: posted_db_def postMessage_def sample_db_def empty_firestore_def sample_chat_def Let_def)

theorem markRead_idempotent_witness:
  "readBy_of posted_db ''m1'' = [''a''] \<and>
   markRead (Some ''a'') ''m1'' posted_db = (200, posted_db) \<and>
   readBy_of (snd (markRead (Some ''b'') ''m1'' posted_db)) ''m1'' = [''a'', ''b''] \<and>
   markRead (Some ''b'') ''m1'' (snd (markRead (Some ''b'') ''m1'' posted_db))
     = (200, snd (markRead (Some ''b'') ''m1'' posted_db)) \<and>
   count_list (readBy_of (snd (markRead (Some ''b'') ''m1'' posted_db)) ''m1'') ''b'' = 1"
proof -
  have r: "readBy_of posted_db ''m1'' = [''a'']"
    by (simp add: posted_db_eq readBy_of_def sample_db_def empty_firestore_def)
  have sa: "fst (markRead (Some ''a'') ''m1'' posted_db) = 200"
    by (simp add: posted_db_eq markRead_def sample_db_def empty_firestore_def sample_chat_def)
  have sb: "fst (markRead (Some ''b'') ''m1'' posted_db) = 200"
    by (simp add: posted_db_eq markRead_def sample_db_def empty_firestore_def sample_chat_def)
  have rb: "readBy_of (snd (markRead (Some ''b'') ''m1'' posted_db)) ''m1'' = [''a'', ''b'']"
    by (simp add: posted_db_eq markRead_def readBy_of_def sample_db_def empty_firestore_def sample_chat_def)
  have d: "readBy_distinct posted_db"
    by (simp add: posted_db_eq readBy_distinct_def sample_db_def empty_firestore_def)
  have ina: "''a'' \<in> set (readBy_of posted_db ''m1'')" by (simp add: r)
  have A: "markRead (Some ''a'') ''m1'' posted_db = (200, posted_db)"
    using markRead_idempotent [of "''a''" posted_db "''m1''"] ina sa
    by (metis prod.collapse)
  have B: "markRead (Some ''b'') ''m1'' (snd (markRead (Some ''b'') ''m1'' posted_db))
     = (200, snd (markRead (Some ''b'') ''m1'' posted_db)) \<and>
     count_list (readBy_of (snd (markRead (Some ''b'') ''m1'' posted_db)) ''m1'') ''b'' = 1"
    using markRead_idempotent [of "''b''" posted_db "''m1''"] sb d by blast
  show ?thesis using r A rb B by blast
qed

section \<open>Detection of an existing direct chat\<close>

lemma sort_b_a: "sort [''b'', ''a''] = [''a'', ''b'']"
  by code_simp

lemma dialog_db_chats:
  "chats dialog_db =
     [(''c1'', \<lparr>chat_name = None, chat_title = Some ''Ann'', isGroup = False,
               members = [''b'', ''a''], createdBy = ''b'', createdAt = 100,
               lastMessageAt = None, lastMessageTime = Some 100, lastMessageId = None,
               lastMessage = None, unreadCounts = None, folder = None, folderName = None\<rparr>)]"
  by (simp add: dialog_db_def handleCreateChat_def user_b_def empty_firestore_def Let_def)

text \<open>
  C4 on the code. The client dialog stores the direct chat of b with a as \<open>[b, a]\<close>.
  The controller's \<open>createChat\<close>, asked by a for a chat with b, compares the stored
  list with the sorted \<open>[a, b]\<close>, finds no chat, and creates a second direct chat of
  the same two users. The dialog's own check, on the same database, finds the chat.
\<close>

theorem createChat_duplicates_unsorted_direct_chat:
  "map (\<lambda>d. (fst d, isGroup (snd d), members (snd d))) (chats dialog_db)
     = [(''c1'', False, [''b'', ''a''])] \<and>
   fst (createChat ''a'' None (Some [''b'']) False None 200 ''c2'' dialog_db)
     = \<lparr>cr_status = 201, cr_chatId = Some ''c2'', cr_exists = Some False\<rparr> \<and>
   map (\<lambda>d. (fst d, isGroup (snd d), members (snd d)))
     (chats (snd (createChat ''a'' None (Some [''b'']) False None 200 ''c2'' dialog_db)))
     = [(''c1'', False, [''b'', ''a'']), (''c2'', False, [''a'', ''b''])] \<and>
   fst (handleCreateChat \<lparr>user_uid = ''a'', user_displayName = Some ''Ann''\<rparr> [(''b'', ''Bob'')]
          False [] [] 200 ''c2'' dialog_db) = Some ''c1''"
  by (simp add: dialog_db_chats createChat_def js_set_list_def sort_b_a new_chat_def Let_def
      handleCreateChat_def)

lemma sort_pair_commute: "sort [u2, u1] = sort [u1, u2]" for u1 :: string
  using linear [of u1 u2] by auto

lemma find_Some_ex: "x \<in> set xs \<Longrightarrow> P x \<Longrightarrow> \<exists>y. find P xs = Some y \<and> y \<in> set xs \<and> P y"
  by (induction xs) auto

text \<open>
  The controller does find a direct chat that is stored in sorted order, as its own
  \<open>createChat\<close> stores it, whichever of the two users asks.
\<close>

lemma createChat_finds_sorted_direct_chat:
  assumes "u1 \<noteq> u2" "(c, cd) \<in> set (chats db)" "members cd = sort [u1, u2]" "\<not> isGroup cd"
  shows "cr_exists (fst (createChat u1 nm (Some [u2]) False fld now newId db)) = Some True \<and>
         snd (createChat u1 nm (Some [u2]) False fld now newId db) = db \<and>
         cr_exists (fst (createChat u2 nm (Some [u1]) False fld now newId db)) = Some True \<and>
         snd (createChat u2 nm (Some [u1]) False fld now newId db) = db"
proof -
  have f: "\<exists>y. find (\<lambda>d. members (snd d) = sort [u1, u2] \<and> isGroup (snd d) = False) (chats db) = Some y"
    using find_Some_ex [of "(c, cd)" "chats db" "\<lambda>d. members (snd d) = sort [u1, u2] \<and> isGroup (snd d) = False"] assms
    by auto
  have s: "js_set_list ([u2] @ [u1]) = [u2, u1]" "js_set_list ([u1] @ [u2]) = [u1, u2]"
    using assms(1) by (simp_all add: js_set_list_def)
  show ?thesis
    using f by (auto simp: createChat_def s Let_def sort_pair_commute [of u2 u1] simp del: append.simps sort_key_simps)
qed

text \<open>
  The dialog finds a direct chat of the two users whatever the order of its members.
\<close>

lemma handleCreateChat_finds_direct_chat:
  assumes "user_uid cu \<noteq> u2" "(c, cd) \<in> set (chats db)" "set (members cd) = {user_uid cu, u2}"
    "length (members cd) = 2" "\<not> isGroup cd"
  shows "\<exists>c'. handleCreateChat cu [(u2, n)] False ttl fld now newId db = (Some c', db) \<and> c' \<in> fst ` set (chats db)"
proof -
  let ?P = "\<lambda>d. fst (hd [(u2, n)]) \<in> set (members (snd d)) \<and> length (members (snd d)) = 2 \<and> \<not> isGroup (snd d)"
  let ?xs = "filter (\<lambda>d. user_uid cu \<in> set (members (snd d))) (chats db)"
  have "(c, cd) \<in> set ?xs" using assms by simp
  moreover have "?P (c, cd)" using assms by simp
  ultimately obtain y where y: "find ?P ?xs = Some y" "y \<in> set ?xs"
    using find_Some_ex [of "(c, cd)" ?xs ?P] by blast
  then show ?thesis
    by (auto simp: handleCreateChat_def Let_def)
qed

end
